theory Spec2Isabelle
  imports Main
begin

section \<open>Python values used by the scripts\<close>

text \<open>
  The two scripts modelled here are \<^verbatim>\<open>manage_org_members.py\<close> (the membership
  reconciler) and \<^verbatim>\<open>download_daily_usage_reports_v2.py\<close> (the retrying report
  download). Both talk to a remote service, the file system and the console; these are
  parameters of the model (a \<open>world\<close>), and everything a run does to them is written to
  a log of events that the functions pass along.

  A decoded JSON document is a \<open>json\<close> value. Python's \<^verbatim>\<open>None\<close> is \<open>JNull\<close>; numbers
  are integers (a float behaves like an integer of the same truth value on every path
  below). Text is a list of 8-bit characters, read as the code points U+0000 to U+00FF.
  An exception is a value of \<open>exn\<close>; a function that may raise returns \<open>exn + 'a\<close>.
  Asynchronous interrupts (Ctrl-C) are outside the model.
\<close>

datatype json =
    JNull
  | JBool bool
  | JNum int
  | JStr string
  | JArr "json list"
  | JObj "(string \<times> json) list"

datatype exn =
    RequestException
  | FileNotFoundError
  | OSError
  | AttributeError
  | TypeError
  | KeyError
  | EOFError
  | UnboundLocalError
  | ValueError
  | OverflowError

text \<open>Truth value of an object, as \<^verbatim>\<open>if x:\<close> and \<^verbatim>\<open>not x\<close> read it.\<close>

fun py_truthy :: "json \<Rightarrow> bool" where
  "py_truthy JNull = False"
| "py_truthy (JBool b) = b"
| "py_truthy (JNum n) = (n \<noteq> 0)"
| "py_truthy (JStr s) = (s \<noteq> [])"
| "py_truthy (JArr xs) = (xs \<noteq> [])"
| "py_truthy (JObj kvs) = (kvs \<noteq> [])"

text \<open>Lists and dicts cannot be hashed: using one as a dict key or set element raises.\<close>

fun py_hashable :: "json \<Rightarrow> bool" where
  "py_hashable (JArr xs) = False"
| "py_hashable (JObj kvs) = False"
| "py_hashable v = True"

text \<open>\<^verbatim>\<open>==\<close> on hashable values: \<^verbatim>\<open>True == 1\<close> and \<^verbatim>\<open>False == 0\<close>.\<close>

fun py_number :: "json \<Rightarrow> int option" where
  "py_number (JBool b) = Some (if b then 1 else 0)"
| "py_number (JNum n) = Some n"
| "py_number v = None"

definition py_eq :: "json \<Rightarrow> json \<Rightarrow> bool" where
  "py_eq a b =
     (case (py_number a, py_number b) of
        (Some x, Some y) \<Rightarrow> x = y
      | _ \<Rightarrow> a = b)"

text \<open>\<^verbatim>\<open>d.get(k, default)\<close>: only a dict has \<^verbatim>\<open>get\<close>.\<close>

fun py_get :: "json \<Rightarrow> string \<Rightarrow> json \<Rightarrow> exn + json" where
  "py_get (JObj kvs) k d = Inr (case map_of kvs k of None \<Rightarrow> d | Some v \<Rightarrow> v)"
| "py_get v k d = Inl AttributeError"

text \<open>\<^verbatim>\<open>m[k]\<close> with a string key.\<close>

fun py_subscript :: "json \<Rightarrow> string \<Rightarrow> exn + json" where
  "py_subscript (JObj kvs) k = (case map_of kvs k of None \<Rightarrow> Inl KeyError | Some v \<Rightarrow> Inr v)"
| "py_subscript v k = Inl TypeError"

text \<open>\<^verbatim>\<open>for x in v\<close>: a list gives its elements, a dict its keys, a string its characters.\<close>

fun py_iter :: "json \<Rightarrow> exn + json list" where
  "py_iter (JArr xs) = Inr xs"
| "py_iter (JObj kvs) = Inr (map (\<lambda>kv. JStr (fst kv)) kvs)"
| "py_iter (JStr s) = Inr (map (\<lambda>c. JStr [c]) s)"
| "py_iter v = Inl TypeError"

fun py_len :: "json \<Rightarrow> exn + nat" where
  "py_len (JArr xs) = Inr (length xs)"
| "py_len (JObj kvs) = Inr (length kvs)"
| "py_len (JStr s) = Inr (length s)"
| "py_len v = Inl TypeError"

text \<open>\<^verbatim>\<open>x in s\<close> for a set \<open>s\<close> (given by its elements): \<open>x\<close> is hashed first.\<close>

definition py_in :: "json \<Rightarrow> json list \<Rightarrow> exn + bool" where
  "py_in x s = (if py_hashable x then Inr (list_ex (py_eq x) s) else Inl TypeError)"

text \<open>\<^verbatim>\<open>str.strip()\<close> and \<^verbatim>\<open>str.lower()\<close> on code points below 256.\<close>

definition py_isspace :: "char \<Rightarrow> bool" where
  "py_isspace c =
     (let n = (of_char c :: nat)
      in (9 \<le> n \<and> n \<le> 13) \<or> (28 \<le> n \<and> n \<le> 32) \<or> n = 133 \<or> n = 160)"

definition py_strip :: "string \<Rightarrow> string" where
  "py_strip s = rev (dropWhile py_isspace (rev (dropWhile py_isspace s)))"

definition py_lower_char :: "char \<Rightarrow> char" where
  "py_lower_char c =
     (let n = (of_char c :: nat)
      in if (65 \<le> n \<and> n \<le> 90) \<or> (192 \<le> n \<and> n \<le> 222 \<and> n \<noteq> 215)
         then char_of (n + 32) else c)"

definition py_lower :: "string \<Rightarrow> string" where
  "py_lower s = map py_lower_char s"

section \<open>The membership reconciler: its world and its log\<close>

datatype action = Add | Remove

text \<open>
  The requests of \<^verbatim>\<open>DominoOrgManager\<close>, by endpoint and parameters:
  \<^verbatim>\<open>GET /api/users/v1/users?limit=\<close>, \<^verbatim>\<open>GET /api/organizations/v1/organizations/all?nameFilter=\<close>,
  \<^verbatim>\<open>PUT .../organizations/{org_id}/user\<close> with payload role and user id, and
  \<^verbatim>\<open>DELETE .../organizations/{org_id}/user?memberToRemoveId=\<close>.
\<close>

datatype request =
    GetUsers int
  | GetOrgs string
  | PutMember json json string
  | DeleteMember json json

fun is_mutating :: "request \<Rightarrow> bool" where
  "is_mutating (PutMember org_id user_id role) = True"
| "is_mutating (DeleteMember org_id user_id) = True"
| "is_mutating r = False"

text \<open>
  What \<^verbatim>\<open>session.get/put/delete\<close> gives: a transport error (a
  \<^verbatim>\<open>RequestException\<close> raised by the call), or a response with a status code and a
  body; the body is \<open>None\<close> when it is not JSON, so that \<^verbatim>\<open>response.json()\<close> raises
  (\<^verbatim>\<open>requests.exceptions.JSONDecodeError\<close>, a \<^verbatim>\<open>RequestException\<close>).
\<close>

datatype reply = ConnError | Reply nat "json option"

text \<open>\<^verbatim>\<open>raise_for_status\<close> of the requests library raises for 4xx and 5xx.\<close>

definition http_error :: "nat \<Rightarrow> bool" where
  "http_error status = (400 \<le> status \<and> status < 600)"

datatype event =
    Request request
  | DryRunWould request
  | UserNotFound string
  | UsersNotFound "string list"
  | NoValidUsers
  | Skipping "string list"
  | NothingToDo
  | Prompt
  | Cancelled
  | Processing string
  | Succeeded string
  | Failed string
  | Summary nat nat nat "nat option"
  | Unexpected exn

text \<open>
  The events are the requests sent and the log lines the properties speak about:
  \<open>DryRunWould\<close> is the \<^verbatim>\<open>[DRY RUN] Would ...\<close> report, \<open>UserNotFound\<close> the warning
  \<^verbatim>\<open>User not found: ...\<close> of \<^verbatim>\<open>manage_members\<close>, \<open>Skipping\<close> the list of users already in
  the wanted state, \<open>Prompt\<close> the call of \<^verbatim>\<open>input\<close>, \<open>Summary\<close> the lines
  \<^verbatim>\<open>Total users processed\<close>, \<^verbatim>\<open>Successful\<close>, \<^verbatim>\<open>Failed\<close> and \<^verbatim>\<open>Users not found\<close>.
\<close>

datatype file_state = Absent | Unreadable | Lines "string list"

record world =
  file_system :: "string \<Rightarrow> file_state"
  server :: "event list \<Rightarrow> request \<Rightarrow> reply"
  console :: "string option"
  env_token :: "string option"
  log_file_ok :: bool

text \<open>
  \<open>server w log r\<close> is the service's answer to request \<open>r\<close> after the run so far;
  \<open>console w\<close> is the line typed at the confirmation prompt (\<open>None\<close>: end of input);
  \<open>env_token w\<close> is \<^verbatim>\<open>DOMINO_API_TOKEN\<close>; \<open>log_file_ok w\<close> says whether the log file can
  be opened when the manager is constructed.
\<close>

fun sent :: "event list \<Rightarrow> request list" where
  "sent [] = []"
| "sent (Request r # es) = r # sent es"
| "sent (e # es) = sent es"

definition mutations :: "event list \<Rightarrow> request list" where
  "mutations log = filter is_mutating (sent log)"

section \<open>The membership reconciler: the methods of DominoOrgManager\<close>

record manager =
  user_limit :: int

text \<open>\<^verbatim>\<open>get_users_batch\<close>: the loop that builds \<^verbatim>\<open>all_users_map\<close>. Only string keys
  can be looked up later; another hashable key leaves the string part of the dict as it is.\<close>

fun build_users_map :: "json list \<Rightarrow> (string \<rightharpoonup> json) \<Rightarrow> exn + (string \<rightharpoonup> json)" where
  "build_users_map [] all_users_map = Inr all_users_map"
| "build_users_map (user # rest) all_users_map =
     (case py_get user ''userName'' JNull of
        Inl e \<Rightarrow> Inl e
      | Inr username \<Rightarrow>
          (case py_get user ''id'' JNull of
             Inl e \<Rightarrow> Inl e
           | Inr user_id \<Rightarrow>
               if py_truthy username \<and> py_truthy user_id then
                 (case username of
                    JStr s \<Rightarrow> build_users_map rest (all_users_map(s \<mapsto> user_id))
                  | _ \<Rightarrow> if py_hashable username then build_users_map rest all_users_map
                         else Inl TypeError)
               else build_users_map rest all_users_map))"

text \<open>The loop \<^verbatim>\<open>result[username] = all_users_map.get(username)\<close>.\<close>

fun filter_requested :: "(string \<rightharpoonup> json) \<Rightarrow> string list \<Rightarrow> (string \<rightharpoonup> json) \<Rightarrow> (string \<rightharpoonup> json)" where
  "filter_requested all_users_map [] result = result"
| "filter_requested all_users_map (username # rest) result =
     filter_requested all_users_map rest (result(username := all_users_map username))"

definition get_users_batch ::
  "world \<Rightarrow> manager \<Rightarrow> event list \<Rightarrow> string list \<Rightarrow> (exn + (string \<rightharpoonup> json)) \<times> event list" where
  "get_users_batch w self log usernames =
     (let req = GetUsers (user_limit self); log1 = log @ [Request req]
      in case server w log req of
           ConnError \<Rightarrow> (Inl RequestException, log1)
         | Reply status body \<Rightarrow>
             if http_error status then (Inl RequestException, log1)
             else (case body of
                     None \<Rightarrow> (Inl RequestException, log1)
                   | Some data \<Rightarrow>
                       (case py_get data ''users'' (JArr []) of
                          Inl e \<Rightarrow> (Inl e, log1)
                        | Inr users \<Rightarrow>
                            (case py_len users of
                               Inl e \<Rightarrow> (Inl e, log1)
                             | Inr users_count \<Rightarrow>
                                 (case py_iter users of
                                    Inl e \<Rightarrow> (Inl e, log1)
                                  | Inr items \<Rightarrow>
                                      (case build_users_map items Map.empty of
                                         Inl e \<Rightarrow> (Inl e, log1)
                                       | Inr all_users_map \<Rightarrow>
                                           (Inr (filter_requested all_users_map usernames Map.empty),
                                            log1)))))))"

text \<open>\<^verbatim>\<open>get_organization_info\<close>: the loop looking for the exact match. On a match, the
  debug line of line 222 takes \<^verbatim>\<open>len(org.get('members', []))\<close>, which may raise.\<close>

fun find_exact :: "json list \<Rightarrow> string \<Rightarrow> exn + json option" where
  "find_exact [] org_name = Inr None"
| "find_exact (org # rest) org_name =
     (case py_get org ''name'' JNull of
        Inl e \<Rightarrow> Inl e
      | Inr name \<Rightarrow>
          if name = JStr org_name then
            (case py_get org ''members'' (JArr []) of
               Inl e \<Rightarrow> Inl e
             | Inr members \<Rightarrow>
                 (case py_len members of Inl e \<Rightarrow> Inl e | Inr n \<Rightarrow> Inr (Some org)))
          else find_exact rest org_name)"

definition get_organization_info ::
  "world \<Rightarrow> event list \<Rightarrow> string \<Rightarrow> (exn + json option) \<times> event list" where
  "get_organization_info w log org_name =
     (let req = GetOrgs org_name; log1 = log @ [Request req]
      in case server w log req of
           ConnError \<Rightarrow> (Inl RequestException, log1)
         | Reply status body \<Rightarrow>
             if http_error status then (Inl RequestException, log1)
             else (case body of
                     None \<Rightarrow> (Inl RequestException, log1)
                   | Some data \<Rightarrow>
                       (case py_get data ''orgs'' (JArr []) of
                          Inl e \<Rightarrow> (Inl e, log1)
                        | Inr orgs \<Rightarrow>
                            if \<not> py_truthy orgs then (Inr None, log1)
                            else (case py_iter orgs of
                                    Inl e \<Rightarrow> (Inl e, log1)
                                  | Inr items \<Rightarrow> (find_exact items org_name, log1)))))"

text \<open>\<^verbatim>\<open>remove_member\<close> and \<^verbatim>\<open>add_member\<close>: the dry-run return comes before the request;
  every \<^verbatim>\<open>RequestException\<close> of the request is caught and gives \<^verbatim>\<open>False\<close>.\<close>

definition remove_member :: "world \<Rightarrow> event list \<Rightarrow> json \<Rightarrow> json \<Rightarrow> bool \<Rightarrow> bool \<times> event list" where
  "remove_member w log org_id user_id dry_run =
     (let req = DeleteMember org_id user_id
      in if dry_run then (True, log @ [DryRunWould req])
         else (case server w log req of
                 ConnError \<Rightarrow> (False, log @ [Request req])
               | Reply status body \<Rightarrow>
                   if http_error status then (False, log @ [Request req])
                   else (case body of
                           None \<Rightarrow> (False, log @ [Request req])
                         | Some data \<Rightarrow> (True, log @ [Request req]))))"

definition add_member ::
  "world \<Rightarrow> event list \<Rightarrow> json \<Rightarrow> json \<Rightarrow> string \<Rightarrow> bool \<Rightarrow> bool \<times> event list" where
  "add_member w log org_id user_id role dry_run =
     (let req = PutMember org_id user_id role
      in if dry_run then (True, log @ [DryRunWould req])
         else (case server w log req of
                 ConnError \<Rightarrow> (False, log @ [Request req])
               | Reply status body \<Rightarrow>
                   if http_error status then (False, log @ [Request req])
                   else (case body of
                           None \<Rightarrow> (False, log @ [Request req])
                         | Some data \<Rightarrow> (True, log @ [Request req]))))"

definition read_usernames_from_file :: "world \<Rightarrow> string \<Rightarrow> exn + string list" where
  "read_usernames_from_file w file_path =
     (case file_system w file_path of
        Absent \<Rightarrow> Inl FileNotFoundError
      | Unreadable \<Rightarrow> Inl OSError
      | Lines f \<Rightarrow> Inr (map py_strip (filter (\<lambda>line. py_strip line \<noteq> []) f)))"

section \<open>The membership reconciler: manage_members\<close>

text \<open>Line 383: \<^verbatim>\<open>current_members = {m['userId'] for m in org_info.get('members', [])}\<close>.
  The set is kept as the list of its elements.\<close>

fun member_ids :: "json list \<Rightarrow> exn + json list" where
  "member_ids [] = Inr []"
| "member_ids (m # rest) =
     (case py_subscript m ''userId'' of
        Inl e \<Rightarrow> Inl e
      | Inr uid \<Rightarrow>
          if \<not> py_hashable uid then Inl TypeError
          else (case member_ids rest of Inl e \<Rightarrow> Inl e | Inr s \<Rightarrow> Inr (uid # s)))"

definition current_members_of :: "json \<Rightarrow> exn + json list" where
  "current_members_of org_info =
     (case py_get org_info ''members'' (JArr []) of
        Inl e \<Rightarrow> Inl e
      | Inr members \<Rightarrow>
          (case py_iter members of Inl e \<Rightarrow> Inl e | Inr ms \<Rightarrow> member_ids ms))"

text \<open>Lines 389-398: found and missing users, in the order of the file.\<close>

fun separate_users :: "(string \<rightharpoonup> json) \<Rightarrow> string list \<Rightarrow> (string \<times> json) list \<times> string list" where
  "separate_users user_lookup [] = ([], [])"
| "separate_users user_lookup (username # rest) =
     (let (user_ids_to_process, missing_users) = separate_users user_lookup rest
      in case user_lookup username of
           None \<Rightarrow> (user_ids_to_process, username # missing_users)
         | Some user_id \<Rightarrow>
             if py_truthy user_id then ((username, user_id) # user_ids_to_process, missing_users)
             else (user_ids_to_process, username # missing_users))"

text \<open>Lines 410-419: a comprehension \<^verbatim>\<open>[(un, uid) for un, uid in xs if cond(uid)]\<close> whose
  condition may raise.\<close>

fun keep_if :: "(json \<Rightarrow> exn + bool) \<Rightarrow> (string \<times> json) list \<Rightarrow> exn + (string \<times> json) list" where
  "keep_if cond [] = Inr []"
| "keep_if cond ((un, uid) # rest) =
     (case cond uid of
        Inl e \<Rightarrow> Inl e
      | Inr b \<Rightarrow>
          (case keep_if cond rest of
             Inl e \<Rightarrow> Inl e
           | Inr kept \<Rightarrow> Inr (if b then (un, uid) # kept else kept)))"

definition py_not_in :: "json \<Rightarrow> json list \<Rightarrow> exn + bool" where
  "py_not_in x s = (case py_in x s of Inl e \<Rightarrow> Inl e | Inr b \<Rightarrow> Inr (\<not> b))"

text \<open>Lines 407-423: the users to process and the users skipped, for the action.\<close>

definition filter_for_action ::
  "action \<Rightarrow> (string \<times> json) list \<Rightarrow> json list
     \<Rightarrow> exn + ((string \<times> json) list \<times> (string \<times> json) list)" where
  "filter_for_action act user_ids_to_process current_members =
     (if act = Add then
        (case keep_if (\<lambda>uid. py_not_in uid current_members) user_ids_to_process of
           Inl e \<Rightarrow> Inl e
         | Inr users_to_process \<Rightarrow>
             (case keep_if (\<lambda>uid. py_in uid current_members) user_ids_to_process of
                Inl e \<Rightarrow> Inl e
              | Inr already_members \<Rightarrow> Inr (users_to_process, already_members)))
      else
        (case keep_if (\<lambda>uid. py_in uid current_members) user_ids_to_process of
           Inl e \<Rightarrow> Inl e
         | Inr users_to_process \<Rightarrow>
             (case keep_if (\<lambda>uid. py_not_in uid current_members) user_ids_to_process of
                Inl e \<Rightarrow> Inl e
              | Inr not_members \<Rightarrow> Inr (users_to_process, not_members))))"

text \<open>Lines 459-473: one call per user to process; the counters and the log go along.\<close>

fun perform_operations ::
  "world \<Rightarrow> action \<Rightarrow> json \<Rightarrow> bool \<Rightarrow> (string \<times> json) list \<Rightarrow> nat \<Rightarrow> nat \<Rightarrow> event list
     \<Rightarrow> (nat \<times> nat) \<times> event list" where
  "perform_operations w act org_id dry_run [] success_count failure_count log =
     ((success_count, failure_count), log)"
| "perform_operations w act org_id dry_run ((username, user_id) # rest) success_count failure_count log =
     (let log1 = log @ [Processing username];
          (success, log2) =
             (if act = Add then add_member w log1 org_id user_id ''Member'' dry_run
              else remove_member w log1 org_id user_id dry_run)
      in if success then
           perform_operations w act org_id dry_run rest (success_count + 1) failure_count
             (log2 @ (if \<not> dry_run then [Succeeded username] else []))
         else
           perform_operations w act org_id dry_run rest success_count (failure_count + 1)
             (log2 @ [Failed username]))"

text \<open>Lines 455-487: the apply phase and the summary.\<close>

definition apply_phase ::
  "world \<Rightarrow> action \<Rightarrow> json \<Rightarrow> bool \<Rightarrow> (string \<times> json) list \<Rightarrow> string list \<Rightarrow> event list
     \<Rightarrow> (exn + bool) \<times> event list" where
  "apply_phase w act org_id dry_run users_to_process missing_users log =
     (case perform_operations w act org_id dry_run users_to_process 0 0 log of
        ((success_count, failure_count), log1) \<Rightarrow>
          (Inr (failure_count = 0),
           log1 @ [Summary (length users_to_process) success_count failure_count
                     (if missing_users \<noteq> [] then Some (length missing_users) else None)]))"

text \<open>Lines 446-453: the confirmation prompt; \<^verbatim>\<open>input\<close> raises \<^verbatim>\<open>EOFError\<close> at end of input.\<close>

definition confirm_and_apply ::
  "world \<Rightarrow> action \<Rightarrow> json \<Rightarrow> bool \<Rightarrow> bool \<Rightarrow> (string \<times> json) list \<Rightarrow> string list \<Rightarrow> event list
     \<Rightarrow> (exn + bool) \<times> event list" where
  "confirm_and_apply w act org_id dry_run skip_confirmation users_to_process missing_users log =
     (if \<not> skip_confirmation \<and> \<not> dry_run then
        (case console w of
           None \<Rightarrow> (Inl EOFError, log @ [Prompt])
         | Some line \<Rightarrow>
             (let response = py_lower (py_strip line)
              in if response \<notin> set [''yes'', ''y''] then (Inr False, log @ [Prompt, Cancelled])
                 else apply_phase w act org_id dry_run users_to_process missing_users (log @ [Prompt])))
      else apply_phase w act org_id dry_run users_to_process missing_users log)"

text \<open>Lines 388-427: from the lookup to the list of users to process.\<close>

definition reconcile ::
  "world \<Rightarrow> action \<Rightarrow> json \<Rightarrow> json list \<Rightarrow> string list \<Rightarrow> (string \<rightharpoonup> json) \<Rightarrow> bool \<Rightarrow> bool
     \<Rightarrow> event list \<Rightarrow> (exn + bool) \<times> event list" where
  "reconcile w act org_id current_members usernames user_lookup dry_run skip_confirmation log =
     (case separate_users user_lookup usernames of
        (user_ids_to_process, missing_users) \<Rightarrow>
          (let log1 = log @ map UserNotFound missing_users
                        @ (if missing_users \<noteq> [] then [UsersNotFound missing_users] else [])
           in if user_ids_to_process = [] then (Inr False, log1 @ [NoValidUsers])
              else (case filter_for_action act user_ids_to_process current_members of
                      Inl e \<Rightarrow> (Inl e, log1)
                    | Inr (users_to_process, skipped) \<Rightarrow>
                        (let log2 = log1 @ (if skipped \<noteq> [] then [Skipping (map fst skipped)] else [])
                         in if users_to_process = [] then (Inr True, log2 @ [NothingToDo])
                            else confirm_and_apply w act org_id dry_run skip_confirmation
                                   users_to_process missing_users log2))))"

text \<open>Lines 373-387: the body of the \<^verbatim>\<open>try\<close>, up to the lookup.\<close>

definition manage_members_try ::
  "world \<Rightarrow> manager \<Rightarrow> action \<Rightarrow> string \<Rightarrow> string \<Rightarrow> bool \<Rightarrow> bool \<Rightarrow> event list
     \<Rightarrow> (exn + bool) \<times> event list" where
  "manage_members_try w self act org_name user_file dry_run skip_confirmation log =
     (case read_usernames_from_file w user_file of
        Inl e \<Rightarrow> (Inl e, log)
      | Inr usernames \<Rightarrow>
          (case get_organization_info w log org_name of
             (Inl e, log1) \<Rightarrow> (Inl e, log1)
           | (Inr None, log1) \<Rightarrow> (Inr False, log1)
           | (Inr (Some org_info), log1) \<Rightarrow>
               if \<not> py_truthy org_info then (Inr False, log1)
               else (case py_get org_info ''id'' JNull of
                       Inl e \<Rightarrow> (Inl e, log1)
                     | Inr org_id \<Rightarrow>
                         (case current_members_of org_info of
                            Inl e \<Rightarrow> (Inl e, log1)
                          | Inr current_members \<Rightarrow>
                              (case get_users_batch w self log1 usernames of
                                 (Inl e, log2) \<Rightarrow> (Inl e, log2)
                               | (Inr user_lookup, log2) \<Rightarrow>
                                   reconcile w act org_id current_members usernames user_lookup
                                     dry_run skip_confirmation log2)))))"

text \<open>\<^verbatim>\<open>manage_members\<close>: \<^verbatim>\<open>except Exception\<close> logs the error and returns \<^verbatim>\<open>False\<close>.\<close>

definition manage_members ::
  "world \<Rightarrow> manager \<Rightarrow> action \<Rightarrow> string \<Rightarrow> string \<Rightarrow> bool \<Rightarrow> bool \<Rightarrow> event list
     \<Rightarrow> bool \<times> event list" where
  "manage_members w self act org_name user_file dry_run skip_confirmation log =
     (case manage_members_try w self act org_name user_file dry_run skip_confirmation log of
        (Inl e, log1) \<Rightarrow> (False, log1 @ [Unexpected e])
      | (Inr success, log1) \<Rightarrow> (success, log1))"

text \<open>\<^verbatim>\<open>main\<close> of \<^verbatim>\<open>manage_org_members.py\<close>, after \<^verbatim>\<open>parse_args\<close>: the exit status and the
  log of a run that is not interrupted. \<^verbatim>\<open>--action\<close> has the choices add and remove. The
  handler of lines 598-600 (\<^verbatim>\<open>KeyboardInterrupt\<close>, exit status 130) belongs to interrupted
  runs, which are outside the model.\<close>

record args =
  arg_action :: action
  arg_user_file :: string
  arg_org :: string
  arg_api_token :: "string option"
  arg_user_limit :: int
  arg_dry_run :: bool
  arg_yes :: bool

definition org_members_main :: "world \<Rightarrow> args \<Rightarrow> nat \<times> event list" where
  "org_members_main w a =
     (let api_token =
            (case arg_api_token a of
               None \<Rightarrow> env_token w
             | Some t \<Rightarrow> if t \<noteq> [] then Some t else env_token w)
      in if (case api_token of None \<Rightarrow> True | Some t \<Rightarrow> t = []) then (1, [])
         else if \<not> log_file_ok w then (1, [])
         else (case manage_members w \<lparr>user_limit = arg_user_limit a\<rparr> (arg_action a) (arg_org a)
                      (arg_user_file a) (arg_dry_run a) (arg_yes a) [] of
                 (success, log) \<Rightarrow> (if success then 0 else 1, log)))"

section \<open>The retrying report download\<close>

text \<open>
  A date is its day number (\<^verbatim>\<open>date.toordinal()\<close>: 1 is 01/01/0001 and 3652059 is
  12/31/9999). \<^verbatim>\<open>strptime\<close>, \<^verbatim>\<open>strftime\<close>, \<^verbatim>\<open>requests.post\<close>, \<^verbatim>\<open>time.sleep\<close>,
  \<^verbatim>\<open>pd.read_csv\<close> and \<^verbatim>\<open>DataFrame.to_excel\<close> are library code and parameters of the
  model.
\<close>

type_synonym table = "string list list"

datatype post_result = PostError | PostResponse nat string

datatype revent =
    Posted string string
  | Slept int
  | AllFailed
  | ParseFailed
  | Saved string
  | WriteFailed string
  | FailedFor string

record report_world =
  requests_post :: "revent list \<Rightarrow> string \<Rightarrow> string \<Rightarrow> string \<Rightarrow> post_result"
  time_sleep :: "int \<Rightarrow> exn option"
  pd_read_csv :: "string \<Rightarrow> table option"
  df_to_excel :: "string \<Rightarrow> table \<Rightarrow> bool"
  strptime :: "string \<Rightarrow> string \<Rightarrow> int option"
  strftime :: "int \<Rightarrow> string \<Rightarrow> string"

text \<open>
  \<open>requests_post w log domain api_key date_str\<close> is what the request for that date gives
  after the run so far; \<open>time_sleep w d\<close> is the exception that \<^verbatim>\<open>time.sleep(d)\<close> raises
  (\<^verbatim>\<open>ValueError\<close> for a negative delay, \<^verbatim>\<open>OverflowError\<close> for one too large for the C
  time type), or \<open>None\<close> when it returns; \<open>pd_read_csv\<close> gives \<open>None\<close> when parsing
  raises; \<open>df_to_excel\<close> says whether \<^verbatim>\<open>to_excel\<close> returned (\<open>True\<close>) or raised;
  \<open>strptime\<close> gives \<open>None\<close> for \<^verbatim>\<open>ValueError\<close>.
  \<open>Posted domain date_str\<close> is a request sent, \<open>Slept d\<close> a \<^verbatim>\<open>time.sleep(d)\<close> that
  returned, \<open>Saved f\<close> a call of \<^verbatim>\<open>to_excel\<close> for the file \<open>f\<close> that returned (followed by
  the line \<^verbatim>\<open>Report saved to\<close>), \<open>WriteFailed f\<close> such a call that raised. What is on the
  disk after a call that raised is not part of the model.
\<close>

text \<open>\<^verbatim>\<open>response.ok\<close>: no 4xx or 5xx status.\<close>

definition response_ok :: "nat \<Rightarrow> bool" where
  "response_ok status = (\<not> (400 \<le> status \<and> status < 600))"

text \<open>Lines 33-53: the retry loop, with the local variables \<^verbatim>\<open>attempt\<close> and
  \<^verbatim>\<open>response\<close> (\<open>None\<close> while unbound). It ends with both, or with the exception
  that \<^verbatim>\<open>time.sleep\<close> raises, which nothing catches.\<close>

function retry_loop ::
  "report_world \<Rightarrow> string \<Rightarrow> string \<Rightarrow> string \<Rightarrow> int \<Rightarrow> int \<Rightarrow> int \<Rightarrow> (nat \<times> string) option
     \<Rightarrow> revent list \<Rightarrow> (exn + (int \<times> (nat \<times> string) option)) \<times> revent list" where
  "retry_loop w domain api_key date_str max_retries retry_delay attempt response log =
     (if attempt < max_retries then
        (case requests_post w log domain api_key date_str of
           PostError \<Rightarrow>
             (if attempt + 1 < max_retries then
                (case time_sleep w retry_delay of
                   Some e \<Rightarrow> (Inl e, log @ [Posted domain date_str])
                 | None \<Rightarrow>
                     retry_loop w domain api_key date_str max_retries retry_delay (attempt + 1)
                       response (log @ [Posted domain date_str, Slept retry_delay]))
              else retry_loop w domain api_key date_str max_retries retry_delay (attempt + 1)
                     response (log @ [Posted domain date_str]))
         | PostResponse status body \<Rightarrow>
             (if response_ok status then
                (Inr (attempt, Some (status, body)), log @ [Posted domain date_str])
              else if attempt + 1 < max_retries then
                (case time_sleep w retry_delay of
                   Some e \<Rightarrow> (Inl e, log @ [Posted domain date_str])
                 | None \<Rightarrow>
                     retry_loop w domain api_key date_str max_retries retry_delay (attempt + 1)
                       (Some (status, body)) (log @ [Posted domain date_str, Slept retry_delay]))
              else retry_loop w domain api_key date_str max_retries retry_delay (attempt + 1)
                     (Some (status, body)) (log @ [Posted domain date_str])))
      else (Inr (attempt, response), log))"
  by pat_completeness auto
termination
  by (relation "measure (\<lambda>(w, domain, api_key, date_str, max_retries, retry_delay, attempt, response, log).
                            nat (max_retries - attempt))") auto

declare retry_loop.simps [simp del]

text \<open>\<^verbatim>\<open>generate_daily_report\<close>: line 56 reads \<^verbatim>\<open>response\<close>, which is unbound when no
  attempt got a response; lines 61-66 read it inside the \<^verbatim>\<open>try\<close>.\<close>

definition generate_daily_report ::
  "report_world \<Rightarrow> string \<Rightarrow> string \<Rightarrow> int \<Rightarrow> string \<Rightarrow> int \<Rightarrow> int \<Rightarrow> revent list
     \<Rightarrow> (exn + bool) \<times> revent list" where
  "generate_daily_report w domain api_key report_date prefix max_retries retry_delay log =
     (let date_str = strftime w report_date ''%m/%d/%Y''
      in case retry_loop w domain api_key date_str max_retries retry_delay 0 None log of
           (Inl e, log1) \<Rightarrow> (Inl e, log1)
         | (Inr (attempt, response), log1) \<Rightarrow>
             (case (if attempt = max_retries then
                      (case response of
                         None \<Rightarrow> Inl UnboundLocalError
                       | Some (status, body) \<Rightarrow> Inr (\<not> response_ok status))
                    else Inr False) of
                Inl e \<Rightarrow> (Inl e, log1)
              | Inr True \<Rightarrow> (Inr False, log1 @ [AllFailed])
              | Inr False \<Rightarrow>
                  (case (case response of
                           None \<Rightarrow> None
                         | Some (status, csv_data) \<Rightarrow> pd_read_csv w csv_data) of
                     None \<Rightarrow> (Inr False, log1 @ [ParseFailed])
                   | Some df \<Rightarrow>
                       (let safe_date = strftime w report_date ''%m-%d-%Y'';
                            output_file = prefix @ ''_'' @ safe_date @ ''.xlsx''
                        in if df_to_excel w output_file df then (Inr True, log1 @ [Saved output_file])
                           else (Inr False, log1 @ [WriteFailed output_file])))))"

record report_args =
  arg_domain :: string
  arg_api_key :: string
  arg_start_date :: string
  arg_end_date :: string
  arg_prefix :: string
  arg_max_retries :: int
  arg_retry_delay :: int

text \<open>Lines 136-150: one report per day; an exception of \<^verbatim>\<open>generate_daily_report\<close> is
  not caught, and adding a day to 12/31/9999 raises \<^verbatim>\<open>OverflowError\<close>.\<close>

function day_loop ::
  "report_world \<Rightarrow> report_args \<Rightarrow> int \<Rightarrow> int \<Rightarrow> revent list \<Rightarrow> (exn + unit) \<times> revent list" where
  "day_loop w a current_dt end_dt log =
     (if current_dt \<le> end_dt then
        (case generate_daily_report w (arg_domain a) (arg_api_key a) current_dt (arg_prefix a)
                (arg_max_retries a) (arg_retry_delay a) log of
           (Inl e, log1) \<Rightarrow> (Inl e, log1)
         | (Inr success, log1) \<Rightarrow>
             (if current_dt = 3652059 then
                (Inl OverflowError,
                 log1 @ (if \<not> success then [FailedFor (strftime w current_dt ''%m/%d/%Y'')] else []))
              else day_loop w a (current_dt + 1) end_dt
                     (log1 @ (if \<not> success then [FailedFor (strftime w current_dt ''%m/%d/%Y'')] else []))))
      else (Inr (), log))"
  by pat_completeness auto
termination
  by (relation "measure (\<lambda>(w, a, current_dt, end_dt, log). nat (end_dt + 1 - current_dt))") auto

declare day_loop.simps [simp del]

text \<open>\<^verbatim>\<open>main\<close> of \<^verbatim>\<open>download_daily_usage_reports_v2.py\<close>, after \<^verbatim>\<open>parse_args\<close>: the exit
  status (1 for \<^verbatim>\<open>sys.exit(1)\<close> and for an uncaught exception) and the log.\<close>

definition reports_main :: "report_world \<Rightarrow> report_args \<Rightarrow> nat \<times> revent list" where
  "reports_main w a =
     (case strptime w (arg_start_date a) ''%m/%d/%Y'' of
        None \<Rightarrow> (1, [])
      | Some start_dt \<Rightarrow>
          (case strptime w (arg_end_date a) ''%m/%d/%Y'' of
             None \<Rightarrow> (1, [])
           | Some end_dt \<Rightarrow>
               if start_dt > end_dt then (1, [])
               else (case day_loop w a start_dt end_dt [] of
                       (Inl e, log) \<Rightarrow> (1, log)
                     | (Inr u, log) \<Rightarrow> (0, log))))"

section \<open>Notions used to state the properties\<close>

text \<open>The mutating request that the apply phase makes for a user id.\<close>

definition mutation_for :: "action \<Rightarrow> json \<Rightarrow> json \<Rightarrow> request" where
  "mutation_for act org_id user_id =
     (if act = Add then PutMember org_id user_id ''Member'' else DeleteMember org_id user_id)"

text \<open>The number of failed mutations of a run: its \<^verbatim>\<open>Failed to ... user\<close> lines.\<close>

fun is_failed :: "event \<Rightarrow> bool" where
  "is_failed (Failed username) = True"
| "is_failed e = False"

definition failures :: "event list \<Rightarrow> nat" where
  "failures log = length (filter is_failed log)"

text \<open>The events of the loop over the users to process.\<close>

fun op_event :: "event \<Rightarrow> bool" where
  "op_event (Processing username) = True"
| "op_event (Request r) = is_mutating r"
| "op_event (DryRunWould r) = True"
| "op_event (Succeeded username) = True"
| "op_event (Failed username) = True"
| "op_event e = False"

text \<open>\<open>applied act org_id dry_run users ext sc fc\<close>: \<open>ext\<close> is the log of the loop over
  \<open>users\<close>, ending with \<open>sc\<close> successes and \<open>fc\<close> failures.\<close>

definition applied ::
  "action \<Rightarrow> json \<Rightarrow> bool \<Rightarrow> (string \<times> json) list \<Rightarrow> event list \<Rightarrow> nat \<Rightarrow> nat \<Rightarrow> bool" where
  "applied act org_id dry_run users ext sc fc =
     (list_all op_event ext
      \<and> mutations ext = (if dry_run then [] else map (\<lambda>p. mutation_for act org_id (snd p)) users)
      \<and> fc = failures ext
      \<and> sc + fc = length users
      \<and> (\<forall>un. (Processing un \<in> set ext) = (un \<in> fst ` set users))
      \<and> (dry_run \<longrightarrow> fc = 0))"

text \<open>The answers that \<^verbatim>\<open>manage_members\<close> takes as a confirmation.\<close>

definition confirms :: "string \<Rightarrow> bool" where
  "confirms answer = (py_lower (py_strip answer) \<in> set [''yes'', ''y''])"

text \<open>\<open>fetched\<close>: what lines 375-386 of a run from the empty log found: the usernames of
  the file, the organization with its id and member set, and the bulk user lookup.\<close>

definition fetched ::
  "world \<Rightarrow> manager \<Rightarrow> string \<Rightarrow> string \<Rightarrow> string list \<Rightarrow> json \<Rightarrow> json \<Rightarrow> json list
     \<Rightarrow> (string \<rightharpoonup> json) \<Rightarrow> bool" where
  "fetched w self org_name user_file usernames org_info org_id current_members user_lookup =
     (read_usernames_from_file w user_file = Inr usernames
      \<and> get_organization_info w [] org_name = (Inr (Some org_info), [Request (GetOrgs org_name)])
      \<and> py_get org_info ''id'' JNull = Inr org_id
      \<and> current_members_of org_info = Inr current_members
      \<and> get_users_batch w self [Request (GetOrgs org_name)] usernames
          = (Inr user_lookup, [Request (GetOrgs org_name), Request (GetUsers (user_limit self))]))"

text \<open>\<open>reconciled\<close>: the paths of lines 388-487 after a log \<open>pre\<close>, by result and log.\<close>

definition reconciled ::
  "world \<Rightarrow> action \<Rightarrow> json \<Rightarrow> json list \<Rightarrow> bool \<Rightarrow> bool \<Rightarrow> (string \<times> json) list \<Rightarrow> string list
     \<Rightarrow> event list \<Rightarrow> bool \<Rightarrow> event list \<Rightarrow> bool" where
  "reconciled w act org_id cm dry_run skip ids missing pre res log =
     ((ids = [] \<and> \<not> res \<and> log = pre @ [NoValidUsers])
      \<or> (ids \<noteq> [] \<and> (\<exists>e. filter_for_action act ids cm = Inl e \<and> \<not> res \<and> log = pre @ [Unexpected e]))
      \<or> (ids \<noteq> [] \<and> (\<exists>utp skipped pre2.
            filter_for_action act ids cm = Inr (utp, skipped)
          \<and> pre2 = pre @ (if skipped \<noteq> [] then [Skipping (map fst skipped)] else [])
          \<and> ((utp = [] \<and> res \<and> log = pre2 @ [NothingToDo])
            \<or> (utp \<noteq> [] \<and> \<not> skip \<and> \<not> dry_run \<and> console w = None \<and> \<not> res
                 \<and> log = pre2 @ [Prompt, Unexpected EOFError])
            \<or> (utp \<noteq> [] \<and> \<not> skip \<and> \<not> dry_run \<and> (\<exists>a. console w = Some a \<and> \<not> confirms a)
                 \<and> \<not> res \<and> log = pre2 @ [Prompt, Cancelled])
            \<or> (utp \<noteq> [] \<and> (\<exists>ext sc fc. res = (fc = 0)
                 \<and> log = pre2 @ (if \<not> skip \<and> \<not> dry_run then [Prompt] else []) @ ext
                           @ [Summary (length utp) sc fc
                                (if missing \<noteq> [] then Some (length missing) else None)]
                 \<and> applied act org_id dry_run utp ext sc fc
                 \<and> (\<not> skip \<and> \<not> dry_run \<longrightarrow> (\<exists>a. console w = Some a \<and> confirms a))))))))"

text \<open>The number of requests of a report log, and an attempt that failed: a transport error
  or a status that is not a success.\<close>

fun is_post :: "revent \<Rightarrow> bool" where
  "is_post (Posted domain date_str) = True"
| "is_post e = False"

definition posts :: "revent list \<Rightarrow> nat" where
  "posts log = length (filter is_post log)"

fun failed_attempt :: "post_result \<Rightarrow> bool" where
  "failed_attempt PostError = True"
| "failed_attempt (PostResponse status body) = (\<not> response_ok status)"

section \<open>Example worlds\<close>

text \<open>An organization \<^verbatim>\<open>team\<close> (next to \<^verbatim>\<open>team-old\<close>) with the given members, the users
  \<^verbatim>\<open>alice\<close> (id u1) and \<^verbatim>\<open>bob\<close> (id u2), a service that accepts every PUT and fails
  every DELETE, the file \<^verbatim>\<open>users.txt\<close> and the answer typed at the prompt.\<close>

definition demo_orgs :: "json list \<Rightarrow> json" where
  "demo_orgs members = JObj [(''orgs'', JArr
      [JObj [(''name'', JStr ''team-old''), (''id'', JStr ''o0''), (''members'', JArr [])],
       JObj [(''name'', JStr ''team''), (''id'', JStr ''o1''), (''members'', JArr members)]])]"

definition demo_users :: json where
  "demo_users = JObj [(''users'', JArr
      [JObj [(''userName'', JStr ''alice''), (''id'', JStr ''u1'')],
       JObj [(''userName'', JStr ''bob''), (''id'', JStr ''u2'')]])]"

fun demo_server :: "json list \<Rightarrow> event list \<Rightarrow> request \<Rightarrow> reply" where
  "demo_server members log (GetOrgs n) = Reply 200 (Some (demo_orgs members))"
| "demo_server members log (GetUsers l) = Reply 200 (Some demo_users)"
| "demo_server members log (PutMember org_id user_id role) = Reply 200 (Some (JObj []))"
| "demo_server members log (DeleteMember org_id user_id) = Reply 500 None"

definition demo_world :: "string list \<Rightarrow> json list \<Rightarrow> string \<Rightarrow> world" where
  "demo_world file_lines members answer =
     \<lparr>file_system = (\<lambda>p. if p = ''users.txt'' then Lines file_lines else Absent),
      server = demo_server members,
      console = Some answer,
      env_token = Some ''token'',
      log_file_ok = True\<rparr>"

definition demo_args :: "action \<Rightarrow> string \<Rightarrow> bool \<Rightarrow> bool \<Rightarrow> args" where
  "demo_args act org_name dry_run yes =
     \<lparr>arg_action = act, arg_user_file = ''users.txt'', arg_org = org_name, arg_api_token = None,
      arg_user_limit = 10000, arg_dry_run = dry_run, arg_yes = yes\<rparr>"

definition u1_member :: "json list" where
  "u1_member = [JObj [(''userId'', JStr ''u1'')]]"

definition u1_u2_members :: "json list" where
  "u1_u2_members = [JObj [(''userId'', JStr ''u1'')], JObj [(''userId'', JStr ''u2'')]]"

definition demo_file :: "string list" where
  "demo_file = [''alice'', '' bob  '', '''', ''carol'']"

text \<open>A report service that is unreachable for the first \<open>fails\<close> requests and then answers
  200 with a CSV body; the three days from 02/01/2025 (day 739283) to 02/03/2025;
  \<^verbatim>\<open>time.sleep\<close> as in CPython 3.11 on a 64-bit machine.\<close>

definition demo_sleep :: "int \<Rightarrow> exn option" where
  "demo_sleep d =
     (if d < 0 then Some ValueError else if 9223372036 < d then Some OverflowError else None)"

definition demo_strftime :: "int \<Rightarrow> string \<Rightarrow> string" where
  "demo_strftime d fmt =
     (if fmt = ''%m/%d/%Y'' then
        (if d = 739283 then ''02/01/2025'' else if d = 739284 then ''02/02/2025'' else ''02/03/2025'')
      else
        (if d = 739283 then ''02-01-2025'' else if d = 739284 then ''02-02-2025'' else ''02-03-2025''))"

definition demo_report_world :: "nat \<Rightarrow> bool \<Rightarrow> report_world" where
  "demo_report_world fails write_ok =
     \<lparr>requests_post = (\<lambda>log domain api_key date_str.
                         if posts log < fails then PostError else PostResponse 200 ''a,b''),
      time_sleep = demo_sleep,
      pd_read_csv = (\<lambda>csv_data. if csv_data = [] then None else Some [[csv_data]]),
      df_to_excel = (\<lambda>output_file df. write_ok),
      strptime = (\<lambda>s fmt. if s = ''02/01/2025'' then Some 739283
                           else if s = ''02/03/2025'' then Some 739285 else None),
      strftime = demo_strftime\<rparr>"

definition demo_report_args :: "string \<Rightarrow> string \<Rightarrow> int \<Rightarrow> int \<Rightarrow> report_args" where
  "demo_report_args start_date end_date max_retries retry_delay =
     \<lparr>arg_domain = ''domino.example'', arg_api_key = ''key'', arg_start_date = start_date,
      arg_end_date = end_date, arg_prefix = ''usage_report'', arg_max_retries = max_retries,
      arg_retry_delay = retry_delay\<rparr>"

section \<open>The log of a run\<close>

lemma sent_append: "sent (a @ b) = sent a @ sent b"
  by (induction a rule: sent.induct) simp_all

lemma mutations_append: "mutations (a @ b) = mutations a @ mutations b"
  by (simp add: mutations_def sent_append)

lemma mutations_simps:
  "mutations [] = []"
  "mutations (Request r # es) = (if is_mutating r then r # mutations es else mutations es)"
  "mutations (DryRunWould r # es) = mutations es"
  "mutations (UserNotFound u # es) = mutations es"
  "mutations (UsersNotFound us # es) = mutations es"
  "mutations (NoValidUsers # es) = mutations es"
  "mutations (Skipping us # es) = mutations es"
  "mutations (NothingToDo # es) = mutations es"
  "mutations (Prompt # es) = mutations es"
  "mutations (Cancelled # es) = mutations es"
  "mutations (Processing u # es) = mutations es"
  "mutations (Succeeded u # es) = mutations es"
  "mutations (Failed u # es) = mutations es"
  "mutations (Summary t s f nf # es) = mutations es"
  "mutations (Unexpected e # es) = mutations es"
  by (simp_all add: mutations_def)

lemma failures_append: "failures (a @ b) = failures a + failures b"
  by (simp add: failures_def)

lemma failures_simps:
  "failures [] = 0"
  "failures (Request r # es) = failures es"
  "failures (DryRunWould r # es) = failures es"
  "failures (UserNotFound u # es) = failures es"
  "failures (UsersNotFound us # es) = failures es"
  "failures (NoValidUsers # es) = failures es"
  "failures (Skipping us # es) = failures es"
  "failures (NothingToDo # es) = failures es"
  "failures (Prompt # es) = failures es"
  "failures (Cancelled # es) = failures es"
  "failures (Processing u # es) = failures es"
  "failures (Succeeded u # es) = failures es"
  "failures (Failed u # es) = Suc (failures es)"
  "failures (Summary t s f nf # es) = failures es"
  "failures (Unexpected e # es) = failures es"
  by (simp_all add: failures_def)

lemma mutations_map_UserNotFound: "mutations (map UserNotFound ms) = []"
  by (induction ms) (simp_all add: mutations_simps)

lemma failures_map_UserNotFound: "failures (map UserNotFound ms) = 0"
  by (induction ms) (simp_all add: failures_simps)

lemma add_member_log:
  "add_member w log org_id user_id role dry_run = (b, log') \<Longrightarrow>
     log' = log @ [if dry_run then DryRunWould (PutMember org_id user_id role)
                   else Request (PutMember org_id user_id role)] \<and> (dry_run \<longrightarrow> b)"
  by (auto simp: add_member_def Let_def split: if_splits reply.splits option.splits)

lemma remove_member_log:
  "remove_member w log org_id user_id dry_run = (b, log') \<Longrightarrow>
     log' = log @ [if dry_run then DryRunWould (DeleteMember org_id user_id)
                   else Request (DeleteMember org_id user_id)] \<and> (dry_run \<longrightarrow> b)"
  by (auto simp: remove_member_def Let_def split: if_splits reply.splits option.splits)

lemma member_call_log:
  assumes "(if act = Add then add_member w log org_id user_id ''Member'' dry_run
            else remove_member w log org_id user_id dry_run) = (b, log')"
  shows "log' = log @ [if dry_run then DryRunWould (mutation_for act org_id user_id)
                       else Request (mutation_for act org_id user_id)] \<and> (dry_run \<longrightarrow> b)"
proof (cases "act = Add")
  case True
  with assms have "add_member w log org_id user_id ''Member'' dry_run = (b, log')" by simp
  from add_member_log [OF this] True show ?thesis by (simp add: mutation_for_def)
next
  case False
  with assms have "remove_member w log org_id user_id dry_run = (b, log')" by simp
  from remove_member_log [OF this] False show ?thesis by (simp add: mutation_for_def)
qed

lemma is_mutating_mutation_for: "is_mutating (mutation_for act org_id user_id)"
  by (simp add: mutation_for_def)

lemma perform_operations_shape:
  "perform_operations w act org_id dry_run us sc fc log = ((sc', fc'), log') \<Longrightarrow>
     \<exists>ext. log' = log @ ext \<and> list_all op_event ext
        \<and> mutations ext = (if dry_run then [] else map (\<lambda>p. mutation_for act org_id (snd p)) us)
        \<and> fc' = fc + failures ext \<and> sc' + fc' = sc + fc + length us
        \<and> (\<forall>un. Processing un \<in> set ext \<longleftrightarrow> un \<in> fst ` set us)"
proof (induction us arbitrary: sc fc log)
  case Nil
  then show ?case by (simp add: mutations_simps failures_simps)
next
  case (Cons p rest)
  obtain un uid where p: "p = (un, uid)" by (cases p)
  obtain b log2 where call:
    "(if act = Add then add_member w (log @ [Processing un]) org_id uid ''Member'' dry_run
      else remove_member w (log @ [Processing un]) org_id uid dry_run) = (b, log2)"
    by (cases "(if act = Add then add_member w (log @ [Processing un]) org_id uid ''Member'' dry_run
      else remove_member w (log @ [Processing un]) org_id uid dry_run)")
  define ev where "ev = (if dry_run then DryRunWould (mutation_for act org_id uid)
                       else Request (mutation_for act org_id uid))"
  from member_call_log [OF call] have log2: "log2 = log @ [Processing un, ev]" and dryb: "dry_run \<longrightarrow> b"
    by (simp_all add: ev_def)
  have ev_op: "op_event ev" by (simp add: ev_def is_mutating_mutation_for)
  have ev_mut: "mutations [ev] = (if dry_run then [] else [mutation_for act org_id uid])"
    by (simp add: ev_def mutations_simps is_mutating_mutation_for)
  have ev_fail: "failures [ev] = 0" by (simp add: ev_def failures_simps)
  have ev_proc: "\<And>u. ev \<noteq> Processing u" by (simp add: ev_def)
  show ?case
  proof (cases b)
    case True
    define tail where "tail = (if \<not> dry_run then [Succeeded un] else [])"
    from Cons.prems p call True have
      "perform_operations w act org_id dry_run rest (sc + 1) fc (log2 @ tail) = ((sc', fc'), log')"
      by (simp add: tail_def)
    from Cons.IH [OF this] obtain ext where ext:
      "log' = (log2 @ tail) @ ext" "list_all op_event ext"
      "mutations ext = (if dry_run then [] else map (\<lambda>p. mutation_for act org_id (snd p)) rest)"
      "fc' = fc + failures ext" "sc' + fc' = sc + 1 + fc + length rest"
      "\<forall>u. Processing u \<in> set ext \<longleftrightarrow> u \<in> fst ` set rest"
      by blast
    let ?ext = "[Processing un, ev] @ tail @ ext"
    have "log' = log @ ?ext" using ext(1) log2 by simp
    moreover have "list_all op_event ?ext" using ext(2) ev_op by (simp add: tail_def)
    moreover have "mutations ?ext = (if dry_run then [] else map (\<lambda>p. mutation_for act org_id (snd p)) (p # rest))"
      using ext(3) ev_mut mutations_append [of "[ev]" "tail @ ext"] mutations_append [of tail ext]
      by (simp add: mutations_simps tail_def p)
    moreover have "fc' = fc + failures ?ext"
      using ext(4) ev_fail failures_append [of "[ev]" "tail @ ext"] failures_append [of tail ext]
      by (simp add: failures_simps tail_def)
    moreover have "sc' + fc' = sc + fc + length (p # rest)" using ext(5) by simp
    moreover have "\<forall>u. Processing u \<in> set ?ext \<longleftrightarrow> u \<in> fst ` set (p # rest)"
      using ext(6) ev_proc by (auto simp: tail_def p)
    ultimately show ?thesis by blast
  next
    case False
    from Cons.prems p call False have
      "perform_operations w act org_id dry_run rest sc (fc + 1) (log2 @ [Failed un]) = ((sc', fc'), log')"
      by simp
    from Cons.IH [OF this] obtain ext where ext:
      "log' = (log2 @ [Failed un]) @ ext" "list_all op_event ext"
      "mutations ext = (if dry_run then [] else map (\<lambda>p. mutation_for act org_id (snd p)) rest)"
      "fc' = fc + 1 + failures ext" "sc' + fc' = sc + (fc + 1) + length rest"
      "\<forall>u. Processing u \<in> set ext \<longleftrightarrow> u \<in> fst ` set rest"
      by blast
    let ?ext = "[Processing un, ev] @ [Failed un] @ ext"
    have "log' = log @ ?ext" using ext(1) log2 by simp
    moreover have "list_all op_event ?ext" using ext(2) ev_op by simp
    moreover have "mutations ?ext = (if dry_run then [] else map (\<lambda>p. mutation_for act org_id (snd p)) (p # rest))"
      using ext(3) ev_mut mutations_append [of "[ev]" "[Failed un] @ ext"]
      by (simp add: mutations_simps p)
    moreover have "fc' = fc + failures ?ext"
      using ext(4) ev_fail failures_append [of "[ev]" "[Failed un] @ ext"]
      by (simp add: failures_simps)
    moreover have "sc' + fc' = sc + fc + length (p # rest)" using ext(5) by simp
    moreover have "\<forall>u. Processing u \<in> set ?ext \<longleftrightarrow> u \<in> fst ` set (p # rest)"
      using ext(6) ev_proc by (auto simp: p)
    ultimately show ?thesis by blast
  qed
qed

lemma perform_operations_dry:
  "perform_operations w act org_id True us sc fc log = ((sc', fc'), log') \<Longrightarrow> fc' = fc"
proof (induction us arbitrary: sc fc log)
  case Nil
  then show ?case by simp
next
  case (Cons p rest)
  obtain un uid where p: "p = (un, uid)" by (cases p)
  obtain b log2 where call:
    "(if act = Add then add_member w (log @ [Processing un]) org_id uid ''Member'' True
      else remove_member w (log @ [Processing un]) org_id uid True) = (b, log2)"
    by (cases "(if act = Add then add_member w (log @ [Processing un]) org_id uid ''Member'' True
      else remove_member w (log @ [Processing un]) org_id uid True)")
  from member_call_log [OF call] have b by simp
  with Cons.prems p call have
    "perform_operations w act org_id True rest (sc + 1) fc log2 = ((sc', fc'), log')"
    by simp
  from Cons.IH [OF this] show ?case .
qed

section \<open>The phases of manage_members\<close>

lemma apply_phase_shape:
  assumes "apply_phase w act org_id dry_run us ms log = (r, log')"
  shows "\<exists>ext sc fc. r = Inr (fc = 0)
           \<and> log' = log @ ext @ [Summary (length us) sc fc (if ms \<noteq> [] then Some (length ms) else None)]
           \<and> applied act org_id dry_run us ext sc fc"
proof -
  obtain sc fc log1 where po: "perform_operations w act org_id dry_run us 0 0 log = ((sc, fc), log1)"
    by (metis surj_pair)
  from perform_operations_shape [OF po] obtain ext where ext:
    "log1 = log @ ext" "list_all op_event ext"
    "mutations ext = (if dry_run then [] else map (\<lambda>p. mutation_for act org_id (snd p)) us)"
    "fc = 0 + failures ext" "sc + fc = 0 + 0 + length us"
    "\<forall>un. Processing un \<in> set ext \<longleftrightarrow> un \<in> fst ` set us"
    by blast
  have dry: "dry_run \<longrightarrow> fc = 0"
    using po perform_operations_dry [of w act org_id us 0 0 log sc fc log1] by auto
  have "applied act org_id dry_run us ext sc fc"
    unfolding applied_def using ext dry by simp
  moreover from assms po ext(1) have
    "r = Inr (fc = 0)"
    "log' = log @ ext @ [Summary (length us) sc fc (if ms \<noteq> [] then Some (length ms) else None)]"
    by (simp_all add: apply_phase_def)
  ultimately show ?thesis by blast
qed

lemma confirm_and_apply_shape:
  assumes "confirm_and_apply w act org_id dry_run skip us ms log = (r, log')"
  shows "(\<not> skip \<and> \<not> dry_run \<and> console w = None \<and> r = Inl EOFError \<and> log' = log @ [Prompt])
       \<or> (\<not> skip \<and> \<not> dry_run \<and> (\<exists>a. console w = Some a \<and> \<not> confirms a) \<and> r = Inr False
            \<and> log' = log @ [Prompt, Cancelled])
       \<or> (\<exists>ext sc fc. r = Inr (fc = 0)
            \<and> log' = log @ (if \<not> skip \<and> \<not> dry_run then [Prompt] else []) @ ext
                       @ [Summary (length us) sc fc (if ms \<noteq> [] then Some (length ms) else None)]
            \<and> applied act org_id dry_run us ext sc fc
            \<and> (\<not> skip \<and> \<not> dry_run \<longrightarrow> (\<exists>a. console w = Some a \<and> confirms a)))"
proof (cases "\<not> skip \<and> \<not> dry_run")
  case False
  with assms have "apply_phase w act org_id dry_run us ms log = (r, log')"
    by (auto simp: confirm_and_apply_def)
  from apply_phase_shape [OF this] False show ?thesis by auto
next
  case True
  show ?thesis
  proof (cases "console w")
    case None
    with assms True show ?thesis by (simp add: confirm_and_apply_def)
  next
    case (Some a)
    show ?thesis
    proof (cases "confirms a")
      case False
      with assms True Some show ?thesis by (auto simp: confirm_and_apply_def confirms_def Let_def)
    next
      case yes: True
      with assms True Some have "apply_phase w act org_id dry_run us ms (log @ [Prompt]) = (r, log')"
        by (auto simp: confirm_and_apply_def confirms_def Let_def)
      from apply_phase_shape [OF this] True Some yes show ?thesis by auto
    qed
  qed
qed

lemma reconcile_shape:
  assumes "reconcile w act org_id cm usernames user_lookup dry_run skip log = (r, log')"
    and "separate_users user_lookup usernames = (ids, missing)"
    and "pre = log @ map UserNotFound missing @ (if missing \<noteq> [] then [UsersNotFound missing] else [])"
    and "nf = (if missing \<noteq> [] then Some (length missing) else None)"
  shows "(ids = [] \<and> r = Inr False \<and> log' = pre @ [NoValidUsers])
       \<or> (ids \<noteq> [] \<and> (\<exists>e. filter_for_action act ids cm = Inl e \<and> r = Inl e \<and> log' = pre))
       \<or> (ids \<noteq> [] \<and> (\<exists>utp skipped pre2.
             filter_for_action act ids cm = Inr (utp, skipped)
           \<and> pre2 = pre @ (if skipped \<noteq> [] then [Skipping (map fst skipped)] else [])
           \<and> ((utp = [] \<and> r = Inr True \<and> log' = pre2 @ [NothingToDo])
             \<or> (utp \<noteq> [] \<and> \<not> skip \<and> \<not> dry_run \<and> console w = None \<and> r = Inl EOFError
                  \<and> log' = pre2 @ [Prompt])
             \<or> (utp \<noteq> [] \<and> \<not> skip \<and> \<not> dry_run \<and> (\<exists>a. console w = Some a \<and> \<not> confirms a)
                  \<and> r = Inr False \<and> log' = pre2 @ [Prompt, Cancelled])
             \<or> (utp \<noteq> [] \<and> (\<exists>ext sc fc. r = Inr (fc = 0)
                  \<and> log' = pre2 @ (if \<not> skip \<and> \<not> dry_run then [Prompt] else []) @ ext
                             @ [Summary (length utp) sc fc nf]
                  \<and> applied act org_id dry_run utp ext sc fc
                  \<and> (\<not> skip \<and> \<not> dry_run \<longrightarrow> (\<exists>a. console w = Some a \<and> confirms a)))))))"
proof (cases "ids = []")
  case True
  with assms show ?thesis by (simp add: reconcile_def)
next
  case ne: False
  show ?thesis
  proof (cases "filter_for_action act ids cm")
    case (Inl e)
    with assms ne show ?thesis by (simp add: reconcile_def)
  next
    case (Inr p)
    obtain utp skipped where p: "p = (utp, skipped)" by (cases p)
    define pre2 where "pre2 = pre @ (if skipped \<noteq> [] then [Skipping (map fst skipped)] else [])"
    show ?thesis
    proof (cases "utp = []")
      case True
      with assms ne Inr p have "r = Inr True \<and> log' = pre2 @ [NothingToDo]"
        by (simp add: reconcile_def pre2_def)
      with ne Inr p True pre2_def show ?thesis by blast
    next
      case False
      with assms ne Inr p have
        "confirm_and_apply w act org_id dry_run skip utp missing pre2 = (r, log')"
        by (simp add: reconcile_def pre2_def)
      from confirm_and_apply_shape [OF this] assms(4) have
        "(utp \<noteq> [] \<and> \<not> skip \<and> \<not> dry_run \<and> console w = None \<and> r = Inl EOFError
                  \<and> log' = pre2 @ [Prompt])
             \<or> (utp \<noteq> [] \<and> \<not> skip \<and> \<not> dry_run \<and> (\<exists>a. console w = Some a \<and> \<not> confirms a)
                  \<and> r = Inr False \<and> log' = pre2 @ [Prompt, Cancelled])
             \<or> (utp \<noteq> [] \<and> (\<exists>ext sc fc. r = Inr (fc = 0)
                  \<and> log' = pre2 @ (if \<not> skip \<and> \<not> dry_run then [Prompt] else []) @ ext
                             @ [Summary (length utp) sc fc nf]
                  \<and> applied act org_id dry_run utp ext sc fc
                  \<and> (\<not> skip \<and> \<not> dry_run \<longrightarrow> (\<exists>a. console w = Some a \<and> confirms a))))"
        using False by auto
      with ne Inr p pre2_def show ?thesis by blast
    qed
  qed
qed

section \<open>The paths of a whole run\<close>

lemma find_exact_Some:
  "find_exact items org_name = Inr (Some org) \<Longrightarrow>
     org \<in> set items \<and> (\<exists>kvs. org = JObj kvs \<and> map_of kvs ''name'' = Some (JStr org_name))"
proof (induction items)
  case Nil
  then show ?case by simp
next
  case (Cons x rest)
  show ?case
  proof (cases x)
    case (JObj kvs)
    show ?thesis
    proof (cases "map_of kvs ''name'' = Some (JStr org_name)")
      case True
      with Cons.prems JObj show ?thesis by (auto split: sum.splits)
    next
      case False
      then have "(case map_of kvs ''name'' of None \<Rightarrow> JNull | Some v \<Rightarrow> v) \<noteq> JStr org_name"
        by (cases "map_of kvs ''name''") auto
      with Cons.prems JObj have "find_exact rest org_name = Inr (Some org)" by simp
      from Cons.IH [OF this] show ?thesis by simp
    qed
  qed (use Cons.prems in simp_all)
qed

lemma get_organization_info_log:
  "get_organization_info w log org_name = (r, log') \<Longrightarrow> log' = log @ [Request (GetOrgs org_name)]"
  by (auto simp: get_organization_info_def Let_def
           split: reply.splits if_splits option.splits sum.splits)

lemma get_organization_info_Some:
  assumes "get_organization_info w log org_name = (Inr (Some org), log')"
  shows "\<exists>kvs. org = JObj kvs \<and> map_of kvs ''name'' = Some (JStr org_name)"
proof -
  from assms obtain items where "find_exact items org_name = Inr (Some org)"
    by (auto simp: get_organization_info_def Let_def
             split: reply.splits if_splits option.splits sum.splits)
  from find_exact_Some [OF this] show ?thesis by simp
qed

lemma get_users_batch_log:
  "get_users_batch w self log usernames = (r, log') \<Longrightarrow>
     log' = log @ [Request (GetUsers (user_limit self))]"
  by (auto simp: get_users_batch_def Let_def
           split: reply.splits if_splits option.splits sum.splits)

lemma manage_members_try_shape:
  assumes "manage_members_try w self act org_name user_file dry_run skip [] = (r, log)"
  shows "(r \<noteq> Inr True \<and> set log \<subseteq> {Request (GetOrgs org_name), Request (GetUsers (user_limit self))}
          \<and> \<not> (\<exists>usernames org_info org_id cm user_lookup.
                 fetched w self org_name user_file usernames org_info org_id cm user_lookup))
       \<or> (\<exists>usernames org_info org_id cm user_lookup.
            fetched w self org_name user_file usernames org_info org_id cm user_lookup
          \<and> reconcile w act org_id cm usernames user_lookup dry_run skip
              [Request (GetOrgs org_name), Request (GetUsers (user_limit self))] = (r, log))"
proof (cases "read_usernames_from_file w user_file")
  case (Inl e)
  with assms show ?thesis by (auto simp: manage_members_try_def fetched_def)
next
  case (Inr usernames)
  obtain ro l1 where goi: "get_organization_info w [] org_name = (ro, l1)" by (metis surj_pair)
  from get_organization_info_log [OF goi] have l1: "l1 = [Request (GetOrgs org_name)]" by simp
  show ?thesis
  proof (cases ro)
    case (Inl e)
    with assms Inr goi l1 show ?thesis by (auto simp: manage_members_try_def fetched_def)
  next
    case ro: (Inr oo)
    show ?thesis
    proof (cases oo)
      case None
      with assms Inr goi l1 ro show ?thesis by (auto simp: manage_members_try_def fetched_def)
    next
      case (Some org_info)
      from get_organization_info_Some goi ro Some obtain kvs where
        kvs: "org_info = JObj kvs" "map_of kvs ''name'' = Some (JStr org_name)" by blast
      then have truthy: "py_truthy org_info" by auto
      obtain org_id where oid: "py_get org_info ''id'' JNull = Inr org_id"
        using kvs by simp
      show ?thesis
      proof (cases "current_members_of org_info")
        case (Inl e)
        with assms Inr goi l1 ro Some truthy oid show ?thesis
          by (auto simp: manage_members_try_def fetched_def)
      next
        case cm: (Inr cm)
        obtain ru l2 where gub: "get_users_batch w self l1 usernames = (ru, l2)" by (metis surj_pair)
        from get_users_batch_log [OF gub] l1 have
          l2: "l2 = [Request (GetOrgs org_name), Request (GetUsers (user_limit self))]" by simp
        show ?thesis
        proof (cases ru)
          case (Inl e)
          with assms Inr goi l1 ro Some truthy oid cm gub l2 show ?thesis
            by (auto simp: manage_members_try_def fetched_def)
        next
          case ru: (Inr user_lookup)
          with assms Inr goi l1 ro Some truthy oid cm gub l2 have
            "reconcile w act org_id cm usernames user_lookup dry_run skip l2 = (r, log)"
            by (auto simp: manage_members_try_def fetched_def)
          moreover have "fetched w self org_name user_file usernames org_info org_id cm user_lookup"
            unfolding fetched_def using Inr goi l1 ro Some oid cm gub l2 ru by simp
          ultimately show ?thesis using l2 by blast
        qed
      qed
    qed
  qed
qed

lemma manage_members_shape:
  assumes "manage_members w self act org_name user_file dry_run skip [] = (res, log)"
  shows "(\<not> res \<and> (\<exists>l. set l \<subseteq> {Request (GetOrgs org_name), Request (GetUsers (user_limit self))}
                      \<and> (log = l \<or> (\<exists>e. log = l @ [Unexpected e])))
          \<and> \<not> (\<exists>usernames org_info org_id cm user_lookup.
                 fetched w self org_name user_file usernames org_info org_id cm user_lookup))
       \<or> (\<exists>usernames org_info org_id cm user_lookup ids missing.
            fetched w self org_name user_file usernames org_info org_id cm user_lookup
          \<and> separate_users user_lookup usernames = (ids, missing)
          \<and> reconciled w act org_id cm dry_run skip ids missing
              ([Request (GetOrgs org_name), Request (GetUsers (user_limit self))]
                 @ map UserNotFound missing
                 @ (if missing \<noteq> [] then [UsersNotFound missing] else [])) res log)"
proof -
  obtain r l where mt: "manage_members_try w self act org_name user_file dry_run skip [] = (r, l)"
    by (metis surj_pair)
  from assms mt have res: "res = (r = Inr True)"
    and log: "log = (case r of Inl e \<Rightarrow> l @ [Unexpected e] | Inr b \<Rightarrow> l)"
    by (auto simp: manage_members_def split: sum.splits)
  from manage_members_try_shape [OF mt] show ?thesis
  proof (elim disjE exE conjE)
    assume "r \<noteq> Inr True" "set l \<subseteq> {Request (GetOrgs org_name), Request (GetUsers (user_limit self))}"
      "\<not> (\<exists>usernames org_info org_id cm user_lookup.
                 fetched w self org_name user_file usernames org_info org_id cm user_lookup)"
    with res log show ?thesis by (cases r) auto
  next
    fix usernames org_info org_id cm user_lookup
    assume f: "fetched w self org_name user_file usernames org_info org_id cm user_lookup"
      and rc: "reconcile w act org_id cm usernames user_lookup dry_run skip
              [Request (GetOrgs org_name), Request (GetUsers (user_limit self))] = (r, l)"
    obtain ids missing where sep: "separate_users user_lookup usernames = (ids, missing)"
      by (metis surj_pair)
    define pre where "pre = [Request (GetOrgs org_name), Request (GetUsers (user_limit self))]
                 @ map UserNotFound missing
                 @ (if missing \<noteq> [] then [UsersNotFound missing] else [])"
    have "reconciled w act org_id cm dry_run skip ids missing pre res log"
      using reconcile_shape [OF rc sep pre_def refl] res log
      unfolding reconciled_def by (elim disjE exE conjE) auto
    with f sep pre_def show ?thesis by blast
  qed
qed

section \<open>Resolved users and users to process\<close>

lemma separate_users_ids:
  "separate_users user_lookup usernames = (ids, missing) \<Longrightarrow>
     ((un, uid) \<in> set ids) = (un \<in> set usernames \<and> user_lookup un = Some uid \<and> py_truthy uid)"
proof (induction usernames arbitrary: ids missing)
  case Nil
  then show ?case by simp
next
  case (Cons u rest)
  obtain ids' missing' where rec: "separate_users user_lookup rest = (ids', missing')"
    by (metis surj_pair)
  from Cons.IH [OF rec] have ih:
    "((un, uid) \<in> set ids') = (un \<in> set rest \<and> user_lookup un = Some uid \<and> py_truthy uid)" .
  from Cons.prems rec show ?case
    using ih by (cases "user_lookup u") (auto split: if_splits)
qed

lemma separate_users_missing:
  "separate_users user_lookup usernames = (ids, missing) \<Longrightarrow>
     (un \<in> set missing) =
       (un \<in> set usernames \<and> (case user_lookup un of None \<Rightarrow> True | Some uid \<Rightarrow> \<not> py_truthy uid))"
proof (induction usernames arbitrary: ids missing)
  case Nil
  then show ?case by simp
next
  case (Cons u rest)
  obtain ids' missing' where rec: "separate_users user_lookup rest = (ids', missing')"
    by (metis surj_pair)
  from Cons.IH [OF rec] have ih:
    "(un \<in> set missing') =
       (un \<in> set rest \<and> (case user_lookup un of None \<Rightarrow> True | Some uid \<Rightarrow> \<not> py_truthy uid))" .
  from Cons.prems rec show ?case
    using ih by (cases "user_lookup u") (auto split: if_splits)
qed

lemma separate_users_length:
  "separate_users user_lookup usernames = (ids, missing) \<Longrightarrow>
     length ids + length missing = length usernames"
proof (induction usernames arbitrary: ids missing)
  case Nil
  then show ?case by simp
next
  case (Cons u rest)
  obtain ids' missing' where rec: "separate_users user_lookup rest = (ids', missing')"
    by (metis surj_pair)
  from Cons.IH [OF rec] Cons.prems rec show ?case
    by (cases "user_lookup u") (auto split: if_splits)
qed

lemma keep_if_set:
  "keep_if cond xs = Inr ys \<Longrightarrow>
     (\<forall>un uid. ((un, uid) \<in> set ys) = ((un, uid) \<in> set xs \<and> cond uid = Inr True))
     \<and> (\<forall>un uid. (un, uid) \<in> set xs \<longrightarrow> (\<exists>b. cond uid = Inr b))"
proof (induction xs arbitrary: ys)
  case Nil
  then show ?case by simp
next
  case (Cons p rest)
  obtain un0 uid0 where p: "p = (un0, uid0)" by (cases p)
  from Cons.prems p obtain b kept where
    b: "cond uid0 = Inr b" and kept: "keep_if cond rest = Inr kept"
    and ys: "ys = (if b then (un0, uid0) # kept else kept)"
    by (auto split: sum.splits)
  from Cons.IH [OF kept] b ys p show ?case by auto
qed

lemma keep_if_length:
  "keep_if (\<lambda>uid. py_in uid cm) xs = Inr a \<Longrightarrow> keep_if (\<lambda>uid. py_not_in uid cm) xs = Inr b \<Longrightarrow>
     length a + length b = length xs"
proof (induction xs arbitrary: a b)
  case Nil
  then show ?case by simp
next
  case (Cons p rest)
  obtain un0 uid0 where p: "p = (un0, uid0)" by (cases p)
  from Cons.prems(1) p obtain c a' where
    c: "py_in uid0 cm = Inr c" and a': "keep_if (\<lambda>uid. py_in uid cm) rest = Inr a'"
    and a: "a = (if c then (un0, uid0) # a' else a')"
    by (auto split: sum.splits)
  from Cons.prems(2) p c obtain b' where
    b': "keep_if (\<lambda>uid. py_not_in uid cm) rest = Inr b'"
    and b: "b = (if \<not> c then (un0, uid0) # b' else b')"
    by (auto simp: py_not_in_def split: sum.splits)
  from Cons.IH [OF a' b'] a b p show ?case by simp
qed

lemma py_not_in_True: "(py_not_in uid cm = Inr True) = (py_in uid cm = Inr False)"
  by (auto simp: py_not_in_def split: sum.splits)

lemma filter_for_action_sound:
  assumes "filter_for_action act ids cm = Inr (utp, skipped)"
  shows "(\<forall>un uid. ((un, uid) \<in> set utp) = ((un, uid) \<in> set ids \<and> py_in uid cm = Inr (act = Remove)))
       \<and> (\<forall>un uid. ((un, uid) \<in> set skipped) = ((un, uid) \<in> set ids \<and> py_in uid cm = Inr (act = Add)))
       \<and> length ids = length utp + length skipped"
proof (cases "act = Add")
  case True
  with assms have
    k1: "keep_if (\<lambda>uid. py_not_in uid cm) ids = Inr utp" and
    k2: "keep_if (\<lambda>uid. py_in uid cm) ids = Inr skipped"
    by (auto simp: filter_for_action_def split: sum.splits)
  from keep_if_set [OF k1] keep_if_set [OF k2] keep_if_length [OF k2 k1] True
  show ?thesis by (simp add: py_not_in_True)
next
  case False
  then have rem: "act = Remove" by (cases act) auto
  with assms have
    k1: "keep_if (\<lambda>uid. py_in uid cm) ids = Inr utp" and
    k2: "keep_if (\<lambda>uid. py_not_in uid cm) ids = Inr skipped"
    by (auto simp: filter_for_action_def split: sum.splits)
  from keep_if_set [OF k1] keep_if_set [OF k2] keep_if_length [OF k1 k2] rem
  show ?thesis by (simp add: py_not_in_True)
qed

lemma in_set_mutations_map:
  "r \<in> set (map (\<lambda>p. mutation_for act org_id (snd p)) us) \<Longrightarrow>
     \<exists>un uid. (un, uid) \<in> set us \<and> r = mutation_for act org_id uid"
  by force

lemma keep_if_filter:
  "keep_if cond xs = Inr ys \<Longrightarrow> ys = filter (\<lambda>p. cond (snd p) = Inr True) xs"
proof (induction xs arbitrary: ys)
  case Nil
  then show ?case by simp
next
  case (Cons p rest)
  obtain un0 uid0 where p: "p = (un0, uid0)" by (cases p)
  from Cons.prems p obtain b kept where
    b: "cond uid0 = Inr b" and kept: "keep_if cond rest = Inr kept"
    and ys: "ys = (if b then (un0, uid0) # kept else kept)"
    by (auto split: sum.splits)
  from Cons.IH [OF kept] b ys p show ?case by auto
qed

lemma filter_for_action_filter:
  assumes "filter_for_action act ids cm = Inr (utp, skipped)"
  shows "utp = filter (\<lambda>p. py_in (snd p) cm = Inr (act = Remove)) ids
       \<and> skipped = filter (\<lambda>p. py_in (snd p) cm = Inr (act = Add)) ids"
proof (cases "act = Add")
  case True
  with assms have
    k1: "keep_if (\<lambda>uid. py_not_in uid cm) ids = Inr utp" and
    k2: "keep_if (\<lambda>uid. py_in uid cm) ids = Inr skipped"
    by (auto simp: filter_for_action_def split: sum.splits)
  from keep_if_filter [OF k1] keep_if_filter [OF k2] True
  show ?thesis by (simp add: py_not_in_True)
next
  case False
  then have rem: "act = Remove" by (cases act) auto
  with assms have
    k1: "keep_if (\<lambda>uid. py_in uid cm) ids = Inr utp" and
    k2: "keep_if (\<lambda>uid. py_not_in uid cm) ids = Inr skipped"
    by (auto simp: filter_for_action_def split: sum.splits)
  from keep_if_filter [OF k1] keep_if_filter [OF k2] rem
  show ?thesis by (simp add: py_not_in_True)
qed

lemma fetched_unique:
  assumes "fetched w self org_name user_file us1 oi1 id1 cm1 lk1"
    and "fetched w self org_name user_file us2 oi2 id2 cm2 lk2"
  shows "us1 = us2 \<and> oi1 = oi2 \<and> id1 = id2 \<and> cm1 = cm2 \<and> lk1 = lk2"
  using assms by (auto simp: fetched_def)

lemma org_members_main_cases:
  assumes "org_members_main w a = (code, log)"
  shows "(code = 1 \<and> log = [])
       \<or> (\<exists>res. manage_members w \<lparr>user_limit = arg_user_limit a\<rparr> (arg_action a) (arg_org a)
                   (arg_user_file a) (arg_dry_run a) (arg_yes a) [] = (res, log)
                \<and> code = (if res then 0 else 1))"
  using assms
  by (auto simp: org_members_main_def Let_def split: if_splits option.splits prod.splits)

section \<open>What the log of a run says\<close>

lemma list_all_op_event_not:
  "list_all op_event ext \<Longrightarrow> \<not> op_event e \<Longrightarrow> e \<notin> set ext"
  by (auto simp: list_all_iff)

lemma reconciled_dry_mutations:
  assumes "reconciled w act org_id cm True skip ids missing pre res log"
  shows "mutations log = mutations pre"
  using assms unfolding reconciled_def applied_def
  by (elim disjE exE conjE)
     (simp_all add: mutations_append mutations_simps)

lemma mutations_two_gets:
  "mutations ([Request (GetOrgs n), Request (GetUsers l)] @ map UserNotFound ms
               @ (if ms \<noteq> [] then [UsersNotFound ms] else [])) = []"
  by (simp add: mutations_append mutations_simps mutations_map_UserNotFound)

lemma mutations_gets_subset:
  "set l \<subseteq> {Request (GetOrgs n), Request (GetUsers k)} \<Longrightarrow> mutations l = []"
proof (induction l)
  case Nil
  then show ?case by (simp add: mutations_simps)
next
  case (Cons e l)
  then show ?case by (auto simp: mutations_simps)
qed

lemma manage_members_dry_mutations:
  assumes "manage_members w self act org_name user_file True skip [] = (res, log)"
  shows "mutations log = []"
  using manage_members_shape [OF assms]
proof (elim disjE exE conjE)
  fix l
  assume "set l \<subseteq> {Request (GetOrgs org_name), Request (GetUsers (user_limit self))}" "log = l"
  then show ?thesis by (simp add: mutations_gets_subset)
next
  fix l e
  assume "set l \<subseteq> {Request (GetOrgs org_name), Request (GetUsers (user_limit self))}"
    "log = l @ [Unexpected e]"
  then show ?thesis by (simp add: mutations_append mutations_simps mutations_gets_subset)
next
  fix usernames org_info org_id cm user_lookup ids missing
  assume "reconciled w act org_id cm True skip ids missing
              ([Request (GetOrgs org_name), Request (GetUsers (user_limit self))]
                 @ map UserNotFound missing
                 @ (if missing \<noteq> [] then [UsersNotFound missing] else [])) res log"
  from reconciled_dry_mutations [OF this] show ?thesis by (simp only: mutations_two_gets)
qed

lemma not_in_map_UserNotFound:
  "Prompt \<notin> set (map UserNotFound ms)" "Processing u \<notin> set (map UserNotFound ms)"
  "Summary t s f nf \<notin> set (map UserNotFound ms)" "NothingToDo \<notin> set (map UserNotFound ms)"
  by auto

lemma applied_not_in:
  assumes "applied act org_id dry_run utp ext sc fc"
  shows "Prompt \<notin> set ext" "Summary t s f nf \<notin> set ext" "NothingToDo \<notin> set ext"
    "UserNotFound u \<notin> set ext" "Cancelled \<notin> set ext"
  using assms list_all_op_event_not [of ext] unfolding applied_def by auto

lemma declined_run:
  assumes run: "manage_members w self act org_name user_file dry_run skip [] = (res, log)"
    and prompt: "Prompt \<in> set log"
    and answer: "console w = Some answer" "\<not> confirms answer"
  shows "\<not> res \<and> mutations log = [] \<and> Cancelled \<in> set log \<and> \<not> dry_run \<and> \<not> skip"
  using manage_members_shape [OF run]
proof (elim disjE exE conjE)
  fix l
  assume "set l \<subseteq> {Request (GetOrgs org_name), Request (GetUsers (user_limit self))}" "log = l"
  with prompt show ?thesis by auto
next
  fix l e
  assume "set l \<subseteq> {Request (GetOrgs org_name), Request (GetUsers (user_limit self))}"
    "log = l @ [Unexpected e]"
  with prompt show ?thesis by auto
next
  fix usernames org_info org_id cm user_lookup ids missing
  define pre where "pre = [Request (GetOrgs org_name), Request (GetUsers (user_limit self))]
                 @ map UserNotFound missing
                 @ (if missing \<noteq> [] then [UsersNotFound missing] else [])"
  assume "reconciled w act org_id cm dry_run skip ids missing
              ([Request (GetOrgs org_name), Request (GetUsers (user_limit self))]
                 @ map UserNotFound missing
                 @ (if missing \<noteq> [] then [UsersNotFound missing] else [])) res log"
  then have rc: "reconciled w act org_id cm dry_run skip ids missing pre res log"
    by (simp add: pre_def)
  have pre_prompt: "Prompt \<notin> set pre" by (auto simp: pre_def)
  have pre_mut: "mutations pre = []" unfolding pre_def by (rule mutations_two_gets)
  from rc show ?thesis unfolding reconciled_def
  proof (elim disjE exE conjE)
    assume "log = pre @ [NoValidUsers]"
    with prompt pre_prompt show ?thesis by auto
  next
    fix e assume "log = pre @ [Unexpected e]"
    with prompt pre_prompt show ?thesis by auto
  next
    fix utp skipped pre2
    assume "pre2 = pre @ (if skipped \<noteq> [] then [Skipping (map fst skipped)] else [])"
      "log = pre2 @ [NothingToDo]"
    with prompt pre_prompt show ?thesis by (auto split: if_splits)
  next
    fix utp skipped pre2
    assume "console w = None"
    with answer show ?thesis by simp
  next
    fix utp skipped pre2 a
    assume "pre2 = pre @ (if skipped \<noteq> [] then [Skipping (map fst skipped)] else [])"
      "log = pre2 @ [Prompt, Cancelled]" "\<not> res" "\<not> skip" "\<not> dry_run"
    with pre_mut show ?thesis by (simp add: mutations_append mutations_simps)
  next
    fix utp skipped pre2 ext sc fc
    assume p2: "pre2 = pre @ (if skipped \<noteq> [] then [Skipping (map fst skipped)] else [])"
      and log: "log = pre2 @ (if \<not> skip \<and> \<not> dry_run then [Prompt] else []) @ ext
                 @ [Summary (length utp) sc fc (if missing \<noteq> [] then Some (length missing) else None)]"
      and ap: "applied act org_id dry_run utp ext sc fc"
      and yes: "\<not> skip \<and> \<not> dry_run \<longrightarrow> (\<exists>a. console w = Some a \<and> confirms a)"
    from prompt log p2 pre_prompt applied_not_in(1) [OF ap] have "\<not> skip \<and> \<not> dry_run"
      by (auto split: if_splits)
    with yes answer show ?thesis by auto
  qed
qed

lemma pre_events:
  assumes "pre = [Request (GetOrgs n), Request (GetUsers k)] @ map UserNotFound missing
                 @ (if missing \<noteq> [] then [UsersNotFound missing] else [])"
  shows "mutations pre = []" "failures pre = 0" "Prompt \<notin> set pre" "Processing u \<notin> set pre"
    "Summary t s f nf \<notin> set pre" "NothingToDo \<notin> set pre"
    "(UserNotFound u \<in> set pre) = (u \<in> set missing)"
  using assms
  by (auto simp: mutations_append mutations_simps mutations_map_UserNotFound
        failures_append failures_simps failures_map_UserNotFound)

text \<open>What the log of a run that got past the lookups says.\<close>

lemma reconciled_facts:
  assumes rc: "reconciled w act org_id cm dry_run skip ids missing pre res log"
    and pre: "pre = [Request (GetOrgs n), Request (GetUsers k)] @ map UserNotFound missing
                 @ (if missing \<noteq> [] then [UsersNotFound missing] else [])"
  shows "(\<forall>r \<in> set (mutations log). \<exists>un uid. (un, uid) \<in> set ids
             \<and> py_in uid cm = Inr (act = Remove) \<and> r = mutation_for act org_id uid)"
    and "\<forall>u. (UserNotFound u \<in> set log) = (u \<in> set missing)"
    and "\<forall>u. Processing u \<in> set log \<longrightarrow>
           (\<exists>uid. (u, uid) \<in> set ids \<and> py_in uid cm = Inr (act = Remove))"
proof -
  note pe = pre_events [OF pre]
  show "\<forall>r \<in> set (mutations log). \<exists>un uid. (un, uid) \<in> set ids
             \<and> py_in uid cm = Inr (act = Remove) \<and> r = mutation_for act org_id uid"
    using rc unfolding reconciled_def
  proof (elim disjE exE conjE)
    fix utp skipped pre2 ext sc fc
    assume ffa: "filter_for_action act ids cm = Inr (utp, skipped)"
      and p2: "pre2 = pre @ (if skipped \<noteq> [] then [Skipping (map fst skipped)] else [])"
      and log: "log = pre2 @ (if \<not> skip \<and> \<not> dry_run then [Prompt] else []) @ ext
                 @ [Summary (length utp) sc fc (if missing \<noteq> [] then Some (length missing) else None)]"
      and ap: "applied act org_id dry_run utp ext sc fc"
    from ap have mext: "mutations ext = (if dry_run then [] else map (\<lambda>p. mutation_for act org_id (snd p)) utp)"
      by (simp add: applied_def)
    have "mutations log = mutations ext"
      using log p2 pe(1) by (simp add: mutations_append mutations_simps)
    with mext have sub: "set (mutations log) \<subseteq> set (map (\<lambda>p. mutation_for act org_id (snd p)) utp)"
      by (simp split: if_splits)
    show ?thesis
    proof
      fix r assume "r \<in> set (mutations log)"
      with sub have "r \<in> set (map (\<lambda>p. mutation_for act org_id (snd p)) utp)" by blast
      from in_set_mutations_map [OF this] obtain un uid where
        "(un, uid) \<in> set utp" "r = mutation_for act org_id uid" by blast
      with filter_for_action_sound [OF ffa]
      show "\<exists>un uid. (un, uid) \<in> set ids
             \<and> py_in uid cm = Inr (act = Remove) \<and> r = mutation_for act org_id uid" by blast
    qed
  qed (use pe(1) in \<open>simp_all add: mutations_append mutations_simps\<close>)
  show "\<forall>u. (UserNotFound u \<in> set log) = (u \<in> set missing)"
    using rc unfolding reconciled_def
  proof (elim disjE exE conjE)
    fix utp skipped pre2 ext sc fc
    assume p2: "pre2 = pre @ (if skipped \<noteq> [] then [Skipping (map fst skipped)] else [])"
      and log: "log = pre2 @ (if \<not> skip \<and> \<not> dry_run then [Prompt] else []) @ ext
                 @ [Summary (length utp) sc fc (if missing \<noteq> [] then Some (length missing) else None)]"
      and ap: "applied act org_id dry_run utp ext sc fc"
    from applied_not_in(4) [OF ap] log p2 pe(7) show ?thesis by auto
  qed (use pe(7) in auto)
  show "\<forall>u. Processing u \<in> set log \<longrightarrow>
           (\<exists>uid. (u, uid) \<in> set ids \<and> py_in uid cm = Inr (act = Remove))"
    using rc unfolding reconciled_def
  proof (elim disjE exE conjE)
    fix utp skipped pre2 ext sc fc
    assume ffa: "filter_for_action act ids cm = Inr (utp, skipped)"
      and p2: "pre2 = pre @ (if skipped \<noteq> [] then [Skipping (map fst skipped)] else [])"
      and log: "log = pre2 @ (if \<not> skip \<and> \<not> dry_run then [Prompt] else []) @ ext
                 @ [Summary (length utp) sc fc (if missing \<noteq> [] then Some (length missing) else None)]"
      and ap: "applied act org_id dry_run utp ext sc fc"
    from ap have pr: "\<forall>un. (Processing un \<in> set ext) = (un \<in> fst ` set utp)"
      by (simp add: applied_def)
    have "Processing u \<in> set log \<Longrightarrow>
           \<exists>uid. (u, uid) \<in> set ids \<and> py_in uid cm = Inr (act = Remove)" for u
    proof -
      assume "Processing u \<in> set log"
      with log p2 pe(4) have "Processing u \<in> set ext" by (auto split: if_splits)
      with pr obtain uid where "(u, uid) \<in> set utp" by auto
      with filter_for_action_sound [OF ffa] show ?thesis by blast
    qed
    then show ?thesis by blast
  qed (use pe(4) in auto)
qed

lemma reconciled_result:
  assumes rc: "reconciled w act org_id cm dry_run skip ids missing pre res log"
    and pre: "pre = [Request (GetOrgs n), Request (GetUsers k)] @ map UserNotFound missing
                 @ (if missing \<noteq> [] then [UsersNotFound missing] else [])"
  shows "res = (NothingToDo \<in> set log \<or> (\<exists>t s nf. Summary t s 0 nf \<in> set log))"
    and "res \<longrightarrow> failures log = 0"
    and "\<forall>t s fc nf. Summary t s fc nf \<in> set log \<longrightarrow>
           fc = failures log \<and> res = (fc = 0) \<and> t = s + fc
           \<and> nf = (if missing \<noteq> [] then Some (length missing) else None)
           \<and> (\<exists>utp skipped. filter_for_action act ids cm = Inr (utp, skipped) \<and> t = length utp)"
    and "(\<exists>un. Processing un \<in> set log) \<longrightarrow> (\<exists>t s fc nf. Summary t s fc nf \<in> set log)"
proof -
  note pe = pre_events [OF pre]
  have all: "res = (NothingToDo \<in> set log \<or> (\<exists>t s nf. Summary t s 0 nf \<in> set log))
    \<and> (res \<longrightarrow> failures log = 0)
    \<and> (\<forall>t s fc nf. Summary t s fc nf \<in> set log \<longrightarrow>
           fc = failures log \<and> res = (fc = 0) \<and> t = s + fc
           \<and> nf = (if missing \<noteq> [] then Some (length missing) else None)
           \<and> (\<exists>utp skipped. filter_for_action act ids cm = Inr (utp, skipped) \<and> t = length utp))
    \<and> ((\<exists>un. Processing un \<in> set log) \<longrightarrow> (\<exists>t s fc nf. Summary t s fc nf \<in> set log))"
    using rc unfolding reconciled_def
  proof (elim disjE exE conjE)
    assume "\<not> res" "log = pre @ [NoValidUsers]"
    with pe show ?thesis by (simp add: failures_append failures_simps)
  next
    fix e assume "\<not> res" "log = pre @ [Unexpected e]"
    with pe show ?thesis by (simp add: failures_append failures_simps)
  next
    fix utp skipped pre2
    assume "pre2 = pre @ (if skipped \<noteq> [] then [Skipping (map fst skipped)] else [])"
      "res" "log = pre2 @ [NothingToDo]"
    with pe show ?thesis by (simp add: failures_append failures_simps)
  next
    fix utp skipped pre2
    assume "pre2 = pre @ (if skipped \<noteq> [] then [Skipping (map fst skipped)] else [])"
      "\<not> res" "log = pre2 @ [Prompt, Unexpected EOFError]"
    with pe show ?thesis by (simp add: failures_append failures_simps)
  next
    fix utp skipped pre2 a
    assume "pre2 = pre @ (if skipped \<noteq> [] then [Skipping (map fst skipped)] else [])"
      "\<not> res" "log = pre2 @ [Prompt, Cancelled]"
    with pe show ?thesis by (simp add: failures_append failures_simps)
  next
    fix utp skipped pre2 ext sc fc
    assume ffa: "filter_for_action act ids cm = Inr (utp, skipped)"
      and p2: "pre2 = pre @ (if skipped \<noteq> [] then [Skipping (map fst skipped)] else [])"
      and res: "res = (fc = 0)"
      and log: "log = pre2 @ (if \<not> skip \<and> \<not> dry_run then [Prompt] else []) @ ext
                 @ [Summary (length utp) sc fc (if missing \<noteq> [] then Some (length missing) else None)]"
      and ap: "applied act org_id dry_run utp ext sc fc"
    from ap have fc: "fc = failures ext" and sum: "sc + fc = length utp"
      by (simp_all add: applied_def)
    note ni = applied_not_in [OF ap]
    have fl: "failures log = fc"
      using log p2 pe(2) fc by (simp add: failures_append failures_simps)
    have only: "Summary t s f nf \<in> set log \<Longrightarrow>
        t = length utp \<and> s = sc \<and> f = fc
        \<and> nf = (if missing \<noteq> [] then Some (length missing) else None)" for t s f nf
      using log p2 pe(5) [of t s f nf] ni(2) [of t s f nf] by (auto split: if_splits)
    have there: "Summary (length utp) sc fc (if missing \<noteq> [] then Some (length missing) else None)
                   \<in> set log"
      using log by simp
    have no_ntd: "NothingToDo \<notin> set log"
      using log p2 pe(6) ni(3) by (auto split: if_splits)
    have c1: "res = (NothingToDo \<in> set log \<or> (\<exists>t s nf. Summary t s 0 nf \<in> set log))"
    proof
      assume res
      with res there show "NothingToDo \<in> set log \<or> (\<exists>t s nf. Summary t s 0 nf \<in> set log)"
        by auto
    next
      assume "NothingToDo \<in> set log \<or> (\<exists>t s nf. Summary t s 0 nf \<in> set log)"
      with no_ntd obtain t s nf where "Summary t s 0 nf \<in> set log" by auto
      from only [OF this] res show res by simp
    qed
    have c2: "res \<longrightarrow> failures log = 0" using res fl by simp
    have c3: "\<forall>t s f nf. Summary t s f nf \<in> set log \<longrightarrow>
           f = failures log \<and> res = (f = 0) \<and> t = s + f
           \<and> nf = (if missing \<noteq> [] then Some (length missing) else None)
           \<and> (\<exists>utp skipped. filter_for_action act ids cm = Inr (utp, skipped) \<and> t = length utp)"
    proof (intro allI impI)
      fix t s f nf assume "Summary t s f nf \<in> set log"
      from only [OF this] fl res sum ffa
      show "f = failures log \<and> res = (f = 0) \<and> t = s + f
           \<and> nf = (if missing \<noteq> [] then Some (length missing) else None)
           \<and> (\<exists>utp skipped. filter_for_action act ids cm = Inr (utp, skipped) \<and> t = length utp)"
        by auto
    qed
    have c4: "(\<exists>un. Processing un \<in> set log) \<longrightarrow> (\<exists>t s fc nf. Summary t s fc nf \<in> set log)"
      using there by blast
    from c1 c2 c3 c4 show ?thesis by blast
  qed
  from all show "res = (NothingToDo \<in> set log \<or> (\<exists>t s nf. Summary t s 0 nf \<in> set log))" by blast
  from all show "res \<longrightarrow> failures log = 0" by blast
  from all show "\<forall>t s fc nf. Summary t s fc nf \<in> set log \<longrightarrow>
           fc = failures log \<and> res = (fc = 0) \<and> t = s + fc
           \<and> nf = (if missing \<noteq> [] then Some (length missing) else None)
           \<and> (\<exists>utp skipped. filter_for_action act ids cm = Inr (utp, skipped) \<and> t = length utp)"
    by blast
  from all show "(\<exists>un. Processing un \<in> set log) \<longrightarrow> (\<exists>t s fc nf. Summary t s fc nf \<in> set log)"
    by blast
qed

lemma early_events:
  assumes "set l \<subseteq> {Request (GetOrgs n), Request (GetUsers k)}"
    and "log = l \<or> (\<exists>e. log = l @ [Unexpected e])"
  shows "failures log = 0" "NothingToDo \<notin> set log" "Summary t s f nf \<notin> set log"
    "Processing u \<notin> set log" "mutations log = []"
proof -
  have fl: "failures l = 0" using assms(1)
  proof (induction l)
    case Nil
    then show ?case by (simp add: failures_simps)
  next
    case (Cons e l)
    then show ?case by (auto simp: failures_simps)
  qed
  from assms fl show "failures log = 0" by (auto simp: failures_append failures_simps)
  from assms show "NothingToDo \<notin> set log" "Summary t s f nf \<notin> set log" "Processing u \<notin> set log"
    by auto
  from assms mutations_gets_subset [OF assms(1)] show "mutations log = []"
    by (auto simp: mutations_append mutations_simps)
qed

lemma manage_members_result:
  assumes "manage_members w self act org_name user_file dry_run skip [] = (res, log)"
  shows "res = (NothingToDo \<in> set log \<or> (\<exists>t s nf. Summary t s 0 nf \<in> set log))
       \<and> (res \<longrightarrow> failures log = 0)
       \<and> (\<forall>t s fc nf. Summary t s fc nf \<in> set log \<longrightarrow> fc = failures log \<and> res = (fc = 0))
       \<and> ((\<exists>e. read_usernames_from_file w user_file = Inl e) \<longrightarrow> \<not> res)
       \<and> (fst (get_organization_info w [] org_name) = Inr None \<longrightarrow> \<not> res)"
  using manage_members_shape [OF assms]
proof (elim disjE exE conjE)
  fix l
  assume "\<not> res" "set l \<subseteq> {Request (GetOrgs org_name), Request (GetUsers (user_limit self))}" "log = l"
  then have e: "set l \<subseteq> {Request (GetOrgs org_name), Request (GetUsers (user_limit self))}"
    "log = l \<or> (\<exists>e. log = l @ [Unexpected e])" and nr: "\<not> res" by auto
  from early_events(1,2,3) [OF e] nr show ?thesis by blast
next
  fix l e
  assume "\<not> res" "set l \<subseteq> {Request (GetOrgs org_name), Request (GetUsers (user_limit self))}"
    "log = l @ [Unexpected e]"
  then have e: "set l \<subseteq> {Request (GetOrgs org_name), Request (GetUsers (user_limit self))}"
    "log = l \<or> (\<exists>e. log = l @ [Unexpected e])" and nr: "\<not> res" by auto
  from early_events(1,2,3) [OF e] nr show ?thesis by blast
next
  fix usernames org_info org_id cm user_lookup ids missing
  assume f: "fetched w self org_name user_file usernames org_info org_id cm user_lookup"
    and rc: "reconciled w act org_id cm dry_run skip ids missing
              ([Request (GetOrgs org_name), Request (GetUsers (user_limit self))]
                 @ map UserNotFound missing
                 @ (if missing \<noteq> [] then [UsersNotFound missing] else [])) res log"
  note rr = reconciled_result [OF rc refl]
  from f have "\<not> (\<exists>e. read_usernames_from_file w user_file = Inl e)"
    "fst (get_organization_info w [] org_name) \<noteq> Inr None"
    by (auto simp: fetched_def)
  with rr(1,2,3) show ?thesis by blast
qed

section \<open>The organization lookup\<close>

lemma find_exact_None:
  "\<forall>org \<in> set items. \<exists>name. py_get org ''name'' JNull = Inr name \<and> name \<noteq> JStr org_name \<Longrightarrow>
     find_exact items org_name = Inr None"
  by (induction items) auto

lemma find_exact_mem:
  "find_exact items org_name = Inr (Some org) \<Longrightarrow>
     org \<in> set items \<and> py_get org ''name'' JNull = Inr (JStr org_name)"
  using find_exact_Some [of items org_name org] by auto

lemma get_organization_info_found:
  assumes "get_organization_info w log org_name = (Inr (Some org), log')"
  shows "py_get org ''name'' JNull = Inr (JStr org_name)
       \<and> (\<exists>status data orgs items. server w log (GetOrgs org_name) = Reply status (Some data)
             \<and> \<not> http_error status
             \<and> py_get data ''orgs'' (JArr []) = Inr orgs \<and> py_iter orgs = Inr items
             \<and> org \<in> set items)"
proof -
  from assms obtain status data orgs items where
    "server w log (GetOrgs org_name) = Reply status (Some data)" "\<not> http_error status"
    "py_get data ''orgs'' (JArr []) = Inr orgs" "py_iter orgs = Inr items"
    "find_exact items org_name = Inr (Some org)"
    by (auto simp: get_organization_info_def Let_def
             split: reply.splits if_splits option.splits sum.splits)
  with find_exact_mem [of items org_name org] show ?thesis by blast
qed

lemma get_organization_info_no_match:
  assumes "server w log (GetOrgs org_name) = Reply status (Some data)" "\<not> http_error status"
    and "py_get data ''orgs'' (JArr []) = Inr (JArr orgs)"
    and "\<forall>org \<in> set orgs. \<exists>name. py_get org ''name'' JNull = Inr name \<and> name \<noteq> JStr org_name"
  shows "get_organization_info w log org_name = (Inr None, log @ [Request (GetOrgs org_name)])"
  using assms find_exact_None [OF assms(4)]
  by (simp add: get_organization_info_def Let_def)

lemma manage_members_org_missing:
  assumes run: "manage_members w self act org_name user_file dry_run skip [] = (res, log)"
    and none: "fst (get_organization_info w [] org_name) = Inr None"
  shows "\<not> res \<and> mutations log = []"
  using manage_members_shape [OF run]
proof (elim disjE exE conjE)
  fix l
  assume "\<not> res" "set l \<subseteq> {Request (GetOrgs org_name), Request (GetUsers (user_limit self))}" "log = l"
  then show ?thesis by (simp add: mutations_gets_subset)
next
  fix l e
  assume "\<not> res" "set l \<subseteq> {Request (GetOrgs org_name), Request (GetUsers (user_limit self))}"
    "log = l @ [Unexpected e]"
  then show ?thesis by (simp add: mutations_append mutations_simps mutations_gets_subset)
next
  fix usernames org_info org_id cm user_lookup
  assume "fetched w self org_name user_file usernames org_info org_id cm user_lookup"
  with none show ?thesis by (simp add: fetched_def)
qed

section \<open>A second run after a successful one\<close>

lemma get_users_batch_same_reply:
  "server w2 log (GetUsers (user_limit self)) = server w1 log (GetUsers (user_limit self)) \<Longrightarrow>
     get_users_batch w2 self log usernames = get_users_batch w1 self log usernames"
  by (simp add: get_users_batch_def)

lemma read_usernames_same_file:
  "file_system w2 user_file = file_system w1 user_file \<Longrightarrow>
     read_usernames_from_file w2 user_file = read_usernames_from_file w1 user_file"
  by (simp add: read_usernames_from_file_def)

lemma keep_if_const:
  "\<forall>p \<in> set xs. cond (snd p) = Inr b \<Longrightarrow> keep_if cond xs = Inr (if b then xs else [])"
  by (induction xs) auto

lemma filter_for_action_total:
  assumes "filter_for_action act ids cm = Inr (utp, skipped)"
  shows "\<forall>un uid. (un, uid) \<in> set ids \<longrightarrow> (\<exists>b. py_in uid cm = Inr b)"
proof -
  from assms obtain ys where "keep_if (\<lambda>uid. py_in uid cm) ids = Inr ys"
    by (auto simp: filter_for_action_def split: sum.splits if_splits)
  from keep_if_set [OF this] show ?thesis by blast
qed

lemma filter_for_action_all_members:
  assumes "\<forall>p \<in> set ids. py_in (snd p) cm = Inr True"
  shows "filter_for_action Add ids cm = Inr ([], ids)"
proof -
  from assms have "\<forall>p \<in> set ids. py_not_in (snd p) cm = Inr False"
    by (simp add: py_not_in_def)
  from keep_if_const [OF this] keep_if_const [OF assms] show ?thesis
    by (simp add: filter_for_action_def)
qed

lemma second_run_nothing_to_do:
  assumes f: "fetched w2 self org_name user_file usernames org_info org_id cm user_lookup"
    and sep: "separate_users user_lookup usernames = (ids, missing)"
    and ne: "ids \<noteq> []"
    and all: "\<forall>p \<in> set ids. py_in (snd p) cm = Inr True"
  shows "fst (manage_members w2 self Add org_name user_file dry_run skip []) \<and>
         mutations (snd (manage_members w2 self Add org_name user_file dry_run skip [])) = []"
proof -
  from f obtain kvs where "org_info = JObj kvs" "map_of kvs ''name'' = Some (JStr org_name)"
    using get_organization_info_Some [of w2 "[]" org_name org_info] by (auto simp: fetched_def)
  then have truthy: "py_truthy org_info" by auto
  define pre where "pre = [Request (GetOrgs org_name), Request (GetUsers (user_limit self))]
                 @ map UserNotFound missing
                 @ (if missing \<noteq> [] then [UsersNotFound missing] else [])"
  have rc: "reconcile w2 Add org_id cm usernames user_lookup dry_run skip
              [Request (GetOrgs org_name), Request (GetUsers (user_limit self))]
            = (Inr True, pre @ [Skipping (map fst ids), NothingToDo])"
    using sep ne filter_for_action_all_members [OF all]
    by (simp add: reconcile_def pre_def)
  have "manage_members_try w2 self Add org_name user_file dry_run skip []
          = (Inr True, pre @ [Skipping (map fst ids), NothingToDo])"
    using f truthy rc by (simp add: manage_members_try_def fetched_def)
  then have "manage_members w2 self Add org_name user_file dry_run skip []
          = (True, pre @ [Skipping (map fst ids), NothingToDo])"
    by (simp add: manage_members_def)
  moreover have "mutations (pre @ [Skipping (map fst ids), NothingToDo]) = []"
    using pre_events(1) [OF pre_def] by (simp add: mutations_append mutations_simps)
  ultimately show ?thesis by simp
qed

lemma successful_add_run:
  assumes rc: "reconciled w Add org_id cm False skip ids missing pre True log"
    and pre: "pre = [Request (GetOrgs n), Request (GetUsers k)] @ map UserNotFound missing
                 @ (if missing \<noteq> [] then [UsersNotFound missing] else [])"
  shows "ids \<noteq> [] \<and> (\<forall>un uid. (un, uid) \<in> set ids \<longrightarrow>
           py_in uid cm = Inr True \<or> PutMember org_id uid ''Member'' \<in> set (mutations log))"
  using rc unfolding reconciled_def
proof (elim disjE exE conjE)
  fix utp skipped pre2
  assume ne: "ids \<noteq> []" and ffa: "filter_for_action Add ids cm = Inr (utp, skipped)"
    and "utp = []"
  with filter_for_action_sound [OF ffa] filter_for_action_total [OF ffa]
  have "\<forall>un uid. (un, uid) \<in> set ids \<longrightarrow> py_in uid cm = Inr True"
    by (metis (full_types) action.distinct(1) empty_iff list.set(1))
  with ne show ?thesis by blast
next
  fix utp skipped pre2 ext sc fc
  assume ne: "ids \<noteq> []" and ffa: "filter_for_action Add ids cm = Inr (utp, skipped)"
    and p2: "pre2 = pre @ (if skipped \<noteq> [] then [Skipping (map fst skipped)] else [])"
    and log: "log = pre2 @ (if \<not> skip \<and> \<not> False then [Prompt] else []) @ ext
                 @ [Summary (length utp) sc fc (if missing \<noteq> [] then Some (length missing) else None)]"
    and ap: "applied Add org_id False utp ext sc fc"
  from ap have mext: "mutations ext = map (\<lambda>p. mutation_for Add org_id (snd p)) utp"
    by (simp add: applied_def)
  have ml: "mutations log = mutations ext"
    using log p2 pre_events(1) [OF pre] by (simp add: mutations_append mutations_simps)
  have "py_in uid cm = Inr True \<or> PutMember org_id uid ''Member'' \<in> set (mutations log)"
    if "(un, uid) \<in> set ids" for un uid
  proof -
    from filter_for_action_total [OF ffa] that obtain b where b: "py_in uid cm = Inr b" by blast
    show ?thesis
    proof (cases b)
      case True
      with b show ?thesis by simp
    next
      case False
      with b that filter_for_action_sound [OF ffa] have "(un, uid) \<in> set utp" by simp
      then have "mutation_for Add org_id uid \<in> set (mutations log)"
        using ml mext by force
      then show ?thesis by (simp add: mutation_for_def)
    qed
  qed
  with ne show ?thesis by blast
qed simp_all

section \<open>The retry loop\<close>

lemma posts_append: "posts (a @ b) = posts a + posts b"
  by (simp add: posts_def)

lemma posts_simps:
  "posts [] = 0"
  "posts (Posted d s # es) = Suc (posts es)"
  "posts (Slept n # es) = posts es"
  by (simp_all add: posts_def)

lemma retry_loop_fails_then_ok:
  assumes ok: "response_ok status"
  shows "attempt + int k + 1 = max_retries \<Longrightarrow> time_sleep w retry_delay = None \<or> k = 0 \<Longrightarrow>
     (\<forall>j < k. failed_attempt
         (requests_post w (log @ concat (replicate j [Posted domain date_str, Slept retry_delay]))
            domain api_key date_str)) \<Longrightarrow>
     requests_post w (log @ concat (replicate k [Posted domain date_str, Slept retry_delay]))
         domain api_key date_str = PostResponse status body \<Longrightarrow>
     retry_loop w domain api_key date_str max_retries retry_delay attempt response log
       = (Inr (attempt + int k, Some (status, body)),
          log @ concat (replicate k [Posted domain date_str, Slept retry_delay])
              @ [Posted domain date_str])"
proof (induction k arbitrary: attempt response log)
  case 0
  then have "requests_post w log domain api_key date_str = PostResponse status body"
    and "attempt < max_retries" by simp_all
  with ok show ?case by (subst retry_loop.simps) simp
next
  case (Suc k)
  let ?step = "[Posted domain date_str, Slept retry_delay]"
  let ?log1 = "log @ ?step"
  from Suc.prems(1) have lt: "attempt < max_retries" "attempt + 1 < max_retries" by simp_all
  from Suc.prems(2) have sleep: "time_sleep w retry_delay = None" by simp
  from Suc.prems(3) have "failed_attempt
      (requests_post w (log @ concat (replicate 0 ?step)) domain api_key date_str)"
    by blast
  then have failed: "failed_attempt (requests_post w log domain api_key date_str)" by simp
  have ih: "retry_loop w domain api_key date_str max_retries retry_delay (attempt + 1) r ?log1
       = (Inr (attempt + 1 + int k, Some (status, body)),
          ?log1 @ concat (replicate k ?step) @ [Posted domain date_str])" for r
  proof (rule Suc.IH)
    show "attempt + 1 + int k + 1 = max_retries" using Suc.prems(1) by simp
    show "time_sleep w retry_delay = None \<or> k = 0" using sleep by simp
    show "\<forall>j < k. failed_attempt
            (requests_post w (?log1 @ concat (replicate j ?step)) domain api_key date_str)"
    proof (intro allI impI)
      fix j assume "j < k"
      then have "Suc j < Suc k" by simp
      with Suc.prems(3) have "failed_attempt
          (requests_post w (log @ concat (replicate (Suc j) ?step)) domain api_key date_str)"
        by blast
      then show "failed_attempt
            (requests_post w (?log1 @ concat (replicate j ?step)) domain api_key date_str)"
        by simp
    qed
    show "requests_post w (?log1 @ concat (replicate k ?step)) domain api_key date_str
            = PostResponse status body"
      using Suc.prems(4) by simp
  qed
  show ?case
  proof (cases "requests_post w log domain api_key date_str")
    case PostError
    with lt sleep ih [of response] show ?thesis
      by (subst retry_loop.simps) simp
  next
    case (PostResponse st b)
    with failed have "\<not> response_ok st" by simp
    with PostResponse lt sleep ih [of "Some (st, b)"] show ?thesis
      by (subst retry_loop.simps) simp
  qed
qed

section \<open>C1: the overall result and the exit status\<close>

text \<open>
  C1 as stated fails: the result of \<^verbatim>\<open>manage_members\<close> is not simply "no mutation failed": a run in which the
  user declines the confirmation, or in which no username of the file is resolved, makes no
  mutating call at all, so that no mutation fails, and yet returns \<^verbatim>\<open>False\<close>.
\<close>

theorem declined_run_fails_without_failed_mutation:
  "manage_members (demo_world demo_file u1_member ''no'') \<lparr>user_limit = 10000\<rparr> Add ''team''
      ''users.txt'' False False []
     = (False, [Request (GetOrgs ''team''), Request (GetUsers 10000), UserNotFound ''carol'',
                UsersNotFound [''carol''], Skipping [''alice''], Prompt, Cancelled])
   \<and> failures [Request (GetOrgs ''team''), Request (GetUsers 10000), UserNotFound ''carol'',
                UsersNotFound [''carol''], Skipping [''alice''], Prompt, Cancelled] = 0
   \<and> manage_members (demo_world [''carol''] u1_member ''yes'') \<lparr>user_limit = 10000\<rparr> Add ''team''
      ''users.txt'' False True []
     = (False, [Request (GetOrgs ''team''), Request (GetUsers 10000), UserNotFound ''carol'',
                UsersNotFound [''carol''], NoValidUsers])
   \<and> failures [Request (GetOrgs ''team''), Request (GetUsers 10000), UserNotFound ''carol'',
                UsersNotFound [''carol''], NoValidUsers] = 0"
  by (intro conjI; code_simp)

text \<open>
  C1, as the code has it. \<^verbatim>\<open>manage_members\<close> returns \<^verbatim>\<open>True\<close> exactly when the run either
  found no user that needs the change, or went through the apply phase and logged a summary
  with a failure count of zero. So a \<^verbatim>\<open>True\<close> result means that no mutation failed, and
  after the apply phase the result is \<^verbatim>\<open>True\<close> iff the failure count (the number of failed
  mutations) is zero. The exit status of \<^verbatim>\<open>main\<close> is 0 on that success, and it is not 0
  when a mutation failed, when the file cannot be read and when the organization is not
  found.
\<close>

theorem success_iff_apply_phase_without_failure:
  assumes "manage_members w self act org_name user_file dry_run skip_confirmation [] = (res, log)"
    and "org_members_main w a = (status, main_log)"
  shows "(res = (NothingToDo \<in> set log
                 \<or> (\<exists>total succeeded not_found. Summary total succeeded 0 not_found \<in> set log)))
       \<and> (res \<longrightarrow> failures log = 0)
       \<and> (\<forall>total succeeded failed not_found. Summary total succeeded failed not_found \<in> set log
             \<longrightarrow> failed = failures log \<and> res = (failed = 0))
       \<and> (NothingToDo \<in> set main_log
              \<or> (\<exists>total succeeded not_found. Summary total succeeded 0 not_found \<in> set main_log)
            \<longrightarrow> status = 0)
       \<and> (failures main_log \<noteq> 0 \<longrightarrow> status \<noteq> 0)
       \<and> ((\<exists>e. read_usernames_from_file w (arg_user_file a) = Inl e) \<longrightarrow> status \<noteq> 0)
       \<and> (fst (get_organization_info w [] (arg_org a)) = Inr None \<longrightarrow> status \<noteq> 0)"
proof -
  note mm = manage_members_result [OF assms(1)]
  have main: "(NothingToDo \<in> set main_log
              \<or> (\<exists>total succeeded not_found. Summary total succeeded 0 not_found \<in> set main_log)
            \<longrightarrow> status = 0)
       \<and> (failures main_log \<noteq> 0 \<longrightarrow> status \<noteq> 0)
       \<and> ((\<exists>e. read_usernames_from_file w (arg_user_file a) = Inl e) \<longrightarrow> status \<noteq> 0)
       \<and> (fst (get_organization_info w [] (arg_org a)) = Inr None \<longrightarrow> status \<noteq> 0)"
    using org_members_main_cases [OF assms(2)]
  proof (elim disjE exE conjE)
    assume "status = 1" "main_log = []"
    then show ?thesis by (simp add: failures_simps)
  next
    fix r
    assume run: "manage_members w \<lparr>user_limit = arg_user_limit a\<rparr> (arg_action a) (arg_org a)
                   (arg_user_file a) (arg_dry_run a) (arg_yes a) [] = (r, main_log)"
      and st: "status = (if r then 0 else 1)"
    from st have r: "r = (status = 0)" by (auto split: if_splits)
    from manage_members_result [OF run] r show ?thesis by auto
  qed
  from mm main show ?thesis by blast
qed

theorem success_iff_apply_phase_without_failure_witness:
  "manage_members (demo_world demo_file u1_member '' YES '') \<lparr>user_limit = 10000\<rparr> Remove ''team''
      ''users.txt'' False True []
     = (False, [Request (GetOrgs ''team''), Request (GetUsers 10000), UserNotFound ''carol'',
                UsersNotFound [''carol''], Skipping [''bob''], Processing ''alice'',
                Request (DeleteMember (JStr ''o1'') (JStr ''u1'')), Failed ''alice'',
                Summary 1 0 1 (Some 1)])
   \<and> org_members_main (demo_world demo_file u1_member '' YES '') (demo_args Add ''team'' False False)
     = (0, [Request (GetOrgs ''team''), Request (GetUsers 10000), UserNotFound ''carol'',
            UsersNotFound [''carol''], Skipping [''alice''], Prompt, Processing ''bob'',
            Request (PutMember (JStr ''o1'') (JStr ''u2'') ''Member''), Succeeded ''bob'',
            Summary 1 1 0 (Some 1)])
   \<and> (1::nat) = failures [Request (GetOrgs ''team''), Request (GetUsers 10000), UserNotFound ''carol'',
                UsersNotFound [''carol''], Skipping [''bob''], Processing ''alice'',
                Request (DeleteMember (JStr ''o1'') (JStr ''u1'')), Failed ''alice'',
                Summary 1 0 1 (Some 1)]
   \<and> org_members_main (demo_world demo_file u1_member '' YES '') (demo_args Remove ''team'' False True)
     = (1, [Request (GetOrgs ''team''), Request (GetUsers 10000), UserNotFound ''carol'',
            UsersNotFound [''carol''], Skipping [''bob''], Processing ''alice'',
            Request (DeleteMember (JStr ''o1'') (JStr ''u1'')), Failed ''alice'',
            Summary 1 0 1 (Some 1)])
   \<and> (1::nat) \<noteq> 0"
proof -
  let ?w = "demo_world demo_file u1_member '' YES ''"
  let ?log = "[Request (GetOrgs ''team''), Request (GetUsers 10000), UserNotFound ''carol'',
                UsersNotFound [''carol''], Skipping [''bob''], Processing ''alice'',
                Request (DeleteMember (JStr ''o1'') (JStr ''u1'')), Failed ''alice'',
                Summary 1 0 1 (Some 1)]"
  have run: "manage_members ?w \<lparr>user_limit = 10000\<rparr> Remove ''team'' ''users.txt'' False True []
               = (False, ?log)"
    by code_simp
  have m: "org_members_main ?w (demo_args Add ''team'' False False)
     = (0, [Request (GetOrgs ''team''), Request (GetUsers 10000), UserNotFound ''carol'',
            UsersNotFound [''carol''], Skipping [''alice''], Prompt, Processing ''bob'',
            Request (PutMember (JStr ''o1'') (JStr ''u2'') ''Member''), Succeeded ''bob'',
            Summary 1 1 0 (Some 1)])"
    by code_simp
  have m': "org_members_main ?w (demo_args Remove ''team'' False True) = (1, ?log)"
    by code_simp
  have s: "Summary 1 0 1 (Some 1) \<in> set ?log" by simp
  have f: "failures ?log \<noteq> 0" by (simp add: failures_simps)
  from success_iff_apply_phase_without_failure [OF run m] s
  have a: "(1::nat) = failures ?log" by blast
  from success_iff_apply_phase_without_failure [OF run m'] f
  have b: "(1::nat) \<noteq> 0" by blast
  from run m a m' b show ?thesis by blast
qed

section \<open>C2: mutating requests only for resolved users that need the change\<close>

text \<open>
  C2. Every mutating request of a run is the request for a username of the file that the
  bulk user lookup resolved to a user id, and whose id is not in the organization's current
  member set when adding, and is in it when removing. A username that the lookup did not
  resolve is logged as not found and never reaches the loop that makes the calls.
\<close>

theorem mutating_calls_only_for_resolved_users_needing_change:
  assumes "manage_members w self act org_name user_file dry_run skip_confirmation [] = (res, log)"
  shows "(\<forall>r \<in> set (mutations log).
            \<exists>usernames org_info org_id current_members user_lookup username user_id.
               fetched w self org_name user_file usernames org_info org_id current_members user_lookup
             \<and> username \<in> set usernames
             \<and> user_lookup username = Some user_id \<and> py_truthy user_id
             \<and> (act = Add \<longrightarrow> py_in user_id current_members = Inr False)
             \<and> (act = Remove \<longrightarrow> py_in user_id current_members = Inr True)
             \<and> r = mutation_for act org_id user_id)
       \<and> (\<forall>usernames org_info org_id current_members user_lookup username.
             fetched w self org_name user_file usernames org_info org_id current_members user_lookup
           \<and> username \<in> set usernames \<and> user_lookup username = None
           \<longrightarrow> UserNotFound username \<in> set log \<and> Processing username \<notin> set log)"
  using manage_members_shape [OF assms]
proof (elim disjE exE conjE)
  fix l
  assume l: "set l \<subseteq> {Request (GetOrgs org_name), Request (GetUsers (user_limit self))}" "log = l"
    and nf: "\<not> (\<exists>usernames org_info org_id cm user_lookup.
                 fetched w self org_name user_file usernames org_info org_id cm user_lookup)"
  from l have "mutations log = []" by (simp add: mutations_gets_subset)
  with nf show ?thesis by auto
next
  fix l e
  assume l: "set l \<subseteq> {Request (GetOrgs org_name), Request (GetUsers (user_limit self))}"
    "log = l @ [Unexpected e]"
    and nf: "\<not> (\<exists>usernames org_info org_id cm user_lookup.
                 fetched w self org_name user_file usernames org_info org_id cm user_lookup)"
  from l have "mutations log = []"
    by (simp add: mutations_append mutations_simps mutations_gets_subset)
  with nf show ?thesis by auto
next
  fix usernames org_info org_id cm user_lookup ids missing
  assume f: "fetched w self org_name user_file usernames org_info org_id cm user_lookup"
    and sep: "separate_users user_lookup usernames = (ids, missing)"
    and rc: "reconciled w act org_id cm dry_run skip_confirmation ids missing
              ([Request (GetOrgs org_name), Request (GetUsers (user_limit self))]
                 @ map UserNotFound missing
                 @ (if missing \<noteq> [] then [UsersNotFound missing] else [])) res log"
  note facts = reconciled_facts [OF rc refl]
  have act_cases: "\<And>b. (b = Inr (act = Remove)) =
      ((act = Add \<longrightarrow> b = Inr False) \<and> (act = Remove \<longrightarrow> b = Inr True))"
    by (cases act) auto
  have part1: "\<forall>r \<in> set (mutations log).
            \<exists>usernames org_info org_id current_members user_lookup username user_id.
               fetched w self org_name user_file usernames org_info org_id current_members user_lookup
             \<and> username \<in> set usernames
             \<and> user_lookup username = Some user_id \<and> py_truthy user_id
             \<and> (act = Add \<longrightarrow> py_in user_id current_members = Inr False)
             \<and> (act = Remove \<longrightarrow> py_in user_id current_members = Inr True)
             \<and> r = mutation_for act org_id user_id"
  proof
    fix r assume "r \<in> set (mutations log)"
    with facts(1) obtain un uid where u: "(un, uid) \<in> set ids"
      "py_in uid cm = Inr (act = Remove)" "r = mutation_for act org_id uid" by blast
    from u(1) separate_users_ids [OF sep, of un uid] have
      "un \<in> set usernames" "user_lookup un = Some uid" "py_truthy uid" by simp_all
    with f u(2,3) act_cases [of "py_in uid cm"]
    show "\<exists>usernames org_info org_id current_members user_lookup username user_id.
               fetched w self org_name user_file usernames org_info org_id current_members user_lookup
             \<and> username \<in> set usernames
             \<and> user_lookup username = Some user_id \<and> py_truthy user_id
             \<and> (act = Add \<longrightarrow> py_in user_id current_members = Inr False)
             \<and> (act = Remove \<longrightarrow> py_in user_id current_members = Inr True)
             \<and> r = mutation_for act org_id user_id" by blast
  qed
  have part2: "\<forall>usernames' org_info' org_id' current_members' user_lookup' username.
             fetched w self org_name user_file usernames' org_info' org_id' current_members' user_lookup'
           \<and> username \<in> set usernames' \<and> user_lookup' username = None
           \<longrightarrow> UserNotFound username \<in> set log \<and> Processing username \<notin> set log"
  proof (intro allI impI, elim conjE)
    fix usernames' org_info' org_id' current_members' user_lookup' username
    assume f': "fetched w self org_name user_file usernames' org_info' org_id' current_members' user_lookup'"
      and un: "username \<in> set usernames'" "user_lookup' username = None"
    from fetched_unique [OF f f'] un have un': "username \<in> set usernames" "user_lookup username = None"
      by simp_all
    with separate_users_missing [OF sep, of username] have "username \<in> set missing" by simp
    with facts(2) have a: "UserNotFound username \<in> set log" by simp
    have b: "Processing username \<notin> set log"
    proof
      assume "Processing username \<in> set log"
      with facts(3) obtain uid where "(username, uid) \<in> set ids" by blast
      with separate_users_ids [OF sep, of username uid] un'(2) show False by simp
    qed
    from a b show "UserNotFound username \<in> set log \<and> Processing username \<notin> set log" ..
  qed
  from part1 part2 show ?thesis by (rule conjI)
qed

theorem mutating_calls_only_for_resolved_users_needing_change_witness:
  "manage_members (demo_world demo_file u1_member '' YES '') \<lparr>user_limit = 10000\<rparr> Add ''team''
      ''users.txt'' False False []
     = (True, [Request (GetOrgs ''team''), Request (GetUsers 10000), UserNotFound ''carol'',
               UsersNotFound [''carol''], Skipping [''alice''], Prompt, Processing ''bob'',
               Request (PutMember (JStr ''o1'') (JStr ''u2'') ''Member''), Succeeded ''bob'',
               Summary 1 1 0 (Some 1)])
   \<and> fetched (demo_world demo_file u1_member '' YES '') \<lparr>user_limit = 10000\<rparr> ''team''
        ''users.txt'' [''alice'', ''bob'', ''carol'']
        (JObj [(''name'', JStr ''team''), (''id'', JStr ''o1''), (''members'', JArr u1_member)])
        (JStr ''o1'') [JStr ''u1'']
        (filter_requested [''alice'' \<mapsto> JStr ''u1'', ''bob'' \<mapsto> JStr ''u2'']
           [''alice'', ''bob'', ''carol''] Map.empty)
   \<and> filter_requested [''alice'' \<mapsto> JStr ''u1'', ''bob'' \<mapsto> JStr ''u2'']
           [''alice'', ''bob'', ''carol''] Map.empty ''carol'' = None
   \<and> UserNotFound ''carol''
        \<in> set [Request (GetOrgs ''team''), Request (GetUsers 10000), UserNotFound ''carol'',
               UsersNotFound [''carol''], Skipping [''alice''], Prompt, Processing ''bob'',
               Request (PutMember (JStr ''o1'') (JStr ''u2'') ''Member''), Succeeded ''bob'',
               Summary 1 1 0 (Some 1)]
   \<and> Processing ''carol''
        \<notin> set [Request (GetOrgs ''team''), Request (GetUsers 10000), UserNotFound ''carol'',
               UsersNotFound [''carol''], Skipping [''alice''], Prompt, Processing ''bob'',
               Request (PutMember (JStr ''o1'') (JStr ''u2'') ''Member''), Succeeded ''bob'',
               Summary 1 1 0 (Some 1)]"
proof -
  let ?w = "demo_world demo_file u1_member '' YES ''"
  let ?log = "[Request (GetOrgs ''team''), Request (GetUsers 10000), UserNotFound ''carol'',
               UsersNotFound [''carol''], Skipping [''alice''], Prompt, Processing ''bob'',
               Request (PutMember (JStr ''o1'') (JStr ''u2'') ''Member''), Succeeded ''bob'',
               Summary 1 1 0 (Some 1)]"
  let ?lk = "filter_requested [''alice'' \<mapsto> JStr ''u1'', ''bob'' \<mapsto> JStr ''u2'']
           [''alice'', ''bob'', ''carol''] Map.empty"
  have run: "manage_members ?w \<lparr>user_limit = 10000\<rparr> Add ''team'' ''users.txt'' False False []
               = (True, ?log)"
    by code_simp
  have f: "fetched ?w \<lparr>user_limit = 10000\<rparr> ''team'' ''users.txt'' [''alice'', ''bob'', ''carol'']
        (JObj [(''name'', JStr ''team''), (''id'', JStr ''o1''), (''members'', JArr u1_member)])
        (JStr ''o1'') [JStr ''u1''] ?lk"
    unfolding fetched_def
    apply (intro conjI)
        apply code_simp
       apply code_simp
      apply code_simp
     apply code_simp
    apply (simp add: get_users_batch_def demo_world_def demo_users_def http_error_def)
    done
  have c: "?lk ''carol'' = None" by simp
  have m: "''carol'' \<in> set [''alice'', ''bob'', ''carol'']" by simp
  from mutating_calls_only_for_resolved_users_needing_change [OF run] f c m
  have "UserNotFound ''carol'' \<in> set ?log \<and> Processing ''carol'' \<notin> set ?log"
    by blast
  with run f c show ?thesis by blast
qed

section \<open>C3: a dry run sends no mutating request\<close>

text \<open>
  C3. In dry-run mode the reconciler never sends a mutating request, whatever the action,
  the organization, the file, the confirmation flag and the world are: the log of
  \<^verbatim>\<open>manage_members\<close> and of \<^verbatim>\<open>main\<close> holds no PUT and no DELETE, and
  \<^verbatim>\<open>add_member\<close> and \<^verbatim>\<open>remove_member\<close> return \<^verbatim>\<open>True\<close> with only the report of the
  action they would have taken.
\<close>

theorem dry_run_issues_no_mutating_call:
  "mutations (snd (manage_members w self act org_name user_file True skip_confirmation [])) = []
   \<and> mutations (snd (org_members_main w (a\<lparr>arg_dry_run := True\<rparr>))) = []
   \<and> add_member w log org_id user_id role True
       = (True, log @ [DryRunWould (PutMember org_id user_id role)])
   \<and> remove_member w log org_id user_id True
       = (True, log @ [DryRunWould (DeleteMember org_id user_id)])"
proof (intro conjI)
  show "mutations (snd (manage_members w self act org_name user_file True skip_confirmation [])) = []"
    using manage_members_dry_mutations [of w self act org_name user_file skip_confirmation]
    by (cases "manage_members w self act org_name user_file True skip_confirmation []") simp
next
  obtain code l where m: "org_members_main w (a\<lparr>arg_dry_run := True\<rparr>) = (code, l)"
    by (metis surj_pair)
  from org_members_main_cases [OF m] have "mutations l = []"
  proof (elim disjE exE conjE)
    assume "l = []" then show ?thesis by (simp add: mutations_simps)
  next
    fix res
    assume "manage_members w \<lparr>user_limit = arg_user_limit (a\<lparr>arg_dry_run := True\<rparr>)\<rparr>
              (arg_action (a\<lparr>arg_dry_run := True\<rparr>)) (arg_org (a\<lparr>arg_dry_run := True\<rparr>))
              (arg_user_file (a\<lparr>arg_dry_run := True\<rparr>)) (arg_dry_run (a\<lparr>arg_dry_run := True\<rparr>))
              (arg_yes (a\<lparr>arg_dry_run := True\<rparr>)) [] = (res, l)"
    then have "manage_members w \<lparr>user_limit = arg_user_limit a\<rparr> (arg_action a) (arg_org a)
              (arg_user_file a) True (arg_yes a) [] = (res, l)" by simp
    from manage_members_dry_mutations [OF this] show ?thesis .
  qed
  with m show "mutations (snd (org_members_main w (a\<lparr>arg_dry_run := True\<rparr>))) = []" by simp
next
  show "add_member w log org_id user_id role True
       = (True, log @ [DryRunWould (PutMember org_id user_id role)])"
    by (simp add: add_member_def)
next
  show "remove_member w log org_id user_id True
       = (True, log @ [DryRunWould (DeleteMember org_id user_id)])"
    by (simp add: remove_member_def)
qed

theorem dry_run_issues_no_mutating_call_witness:
  "manage_members (demo_world demo_file u1_member ''yes'') \<lparr>user_limit = 10000\<rparr> Add ''team''
      ''users.txt'' True False []
     = (True, [Request (GetOrgs ''team''), Request (GetUsers 10000), UserNotFound ''carol'',
               UsersNotFound [''carol''], Skipping [''alice''], Processing ''bob'',
               DryRunWould (PutMember (JStr ''o1'') (JStr ''u2'') ''Member''),
               Summary 1 1 0 (Some 1)])
   \<and> mutations (snd (manage_members (demo_world demo_file u1_member ''yes'') \<lparr>user_limit = 10000\<rparr>
        Add ''team'' ''users.txt'' True False [])) = []"
proof
  show "manage_members (demo_world demo_file u1_member ''yes'') \<lparr>user_limit = 10000\<rparr> Add ''team''
      ''users.txt'' True False []
     = (True, [Request (GetOrgs ''team''), Request (GetUsers 10000), UserNotFound ''carol'',
               UsersNotFound [''carol''], Skipping [''alice''], Processing ''bob'',
               DryRunWould (PutMember (JStr ''o1'') (JStr ''u2'') ''Member''),
               Summary 1 1 0 (Some 1)])"
    by code_simp
next
  show "mutations (snd (manage_members (demo_world demo_file u1_member ''yes'') \<lparr>user_limit = 10000\<rparr>
        Add ''team'' ''users.txt'' True False [])) = []"
    using dry_run_issues_no_mutating_call
      [of "demo_world demo_file u1_member ''yes''" "\<lparr>user_limit = 10000\<rparr>" Add "''team''"
          "''users.txt''" False]
    by simp
qed

section \<open>C4: failing attempts, then one export\<close>

text \<open>
  C4 as stated fails: a service that answers the last allowed attempt with a well-formed
  body does not always give a successful export. When \<^verbatim>\<open>to_excel\<close> raises,
  \<^verbatim>\<open>generate_daily_report\<close> returns \<^verbatim>\<open>False\<close>; and when \<^verbatim>\<open>time.sleep\<close> raises for the
  retry delay (a negative one, or one too large), the exception ends the function after
  the first failed attempt.
\<close>

theorem success_on_last_attempt_without_export:
  "generate_daily_report (demo_report_world 0 False) ''domino.example'' ''key'' 739283
      ''usage_report'' 1 30 []
     = (Inr False, [Posted ''domino.example'' ''02/01/2025'',
                    WriteFailed ''usage_report_02-01-2025.xlsx''])
   \<and> generate_daily_report (demo_report_world 1 True) ''domino.example'' ''key'' 739283
      ''usage_report'' 2 (- 1) []
     = (Inl ValueError, [Posted ''domino.example'' ''02/01/2025''])
   \<and> generate_daily_report (demo_report_world 1 True) ''domino.example'' ''key'' 739283
      ''usage_report'' 2 10000000000 []
     = (Inl OverflowError, [Posted ''domino.example'' ''02/01/2025''])"
  by (intro conjI; code_simp)

text \<open>
  C4, as the code has it. Let the maximum number of attempts be \<open>N \<ge> 1\<close>, and let
  \<^verbatim>\<open>time.sleep\<close> return for the retry delay (or \<open>N = 1\<close>, when nothing sleeps). If, in this
  run, the first \<open>N - 1\<close> requests for the date fail (a transport error or a status that is
  not a success) and request \<open>N\<close> is answered with a success status and a body that parses,
  then \<^verbatim>\<open>generate_daily_report\<close> sends exactly \<open>N\<close> requests, sleeps exactly \<open>N - 1\<close> times,
  for the retry delay each time, and calls \<^verbatim>\<open>to_excel\<close> exactly once, for the file of that
  date; it returns \<^verbatim>\<open>True\<close> when that call returns and \<^verbatim>\<open>False\<close> when it raises. The
  requests of the run are those after the logs \<open>log\<close>, \<open>log\<close> with one request and one sleep,
  and so on.
\<close>

theorem retries_then_one_export:
  assumes "1 \<le> max_retries"
    and "time_sleep w retry_delay = None \<or> max_retries = 1"
    and "date_str = strftime w report_date ''%m/%d/%Y''"
    and "\<forall>j < nat (max_retries - 1). failed_attempt
           (requests_post w (log @ concat (replicate j [Posted domain date_str, Slept retry_delay]))
              domain api_key date_str)"
    and "requests_post w
           (log @ concat (replicate (nat (max_retries - 1)) [Posted domain date_str, Slept retry_delay]))
           domain api_key date_str = PostResponse status body"
    and "response_ok status"
    and "pd_read_csv w body = Some df"
    and "output_file = prefix @ ''_'' @ strftime w report_date ''%m-%d-%Y'' @ ''.xlsx''"
  shows "generate_daily_report w domain api_key report_date prefix max_retries retry_delay log
     = (Inr (df_to_excel w output_file df),
        log @ concat (replicate (nat (max_retries - 1)) [Posted domain date_str, Slept retry_delay])
            @ [Posted domain date_str,
               if df_to_excel w output_file df then Saved output_file else WriteFailed output_file])"
proof -
  define k where "k = nat (max_retries - 1)"
  have a: "0 + int k + 1 = max_retries" using assms(1) by (simp add: k_def)
  have b: "time_sleep w retry_delay = None \<or> k = 0" using assms(2) by (auto simp: k_def)
  have loop: "retry_loop w domain api_key date_str max_retries retry_delay 0 None log
       = (Inr (0 + int k, Some (status, body)),
          log @ concat (replicate k [Posted domain date_str, Slept retry_delay])
              @ [Posted domain date_str])"
    using assms(4,5) unfolding k_def [symmetric]
    by (intro retry_loop_fails_then_ok [OF assms(6) a b]) simp_all
  have ne: "int k \<noteq> max_retries" using a by simp
  show ?thesis
    using loop ne assms(3,7,8) unfolding k_def [symmetric]
    by (simp add: generate_daily_report_def Let_def)
qed

theorem retries_then_one_export_witness:
  "(1::int) \<le> 3 \<and> (time_sleep (demo_report_world 2 True) 30 = None \<or> (3::int) = 1)
   \<and> response_ok 200
   \<and> pd_read_csv (demo_report_world 2 True) ''a,b'' = Some [[''a,b'']]
   \<and> generate_daily_report (demo_report_world 2 True) ''domino.example'' ''key'' 739283
        ''usage_report'' 3 30 []
     = (Inr True, [Posted ''domino.example'' ''02/01/2025'', Slept 30,
                   Posted ''domino.example'' ''02/01/2025'', Slept 30,
                   Posted ''domino.example'' ''02/01/2025'',
                   Saved ''usage_report_02-01-2025.xlsx''])"
proof -
  let ?w = "demo_report_world 2 True"
  let ?step = "[Posted ''domino.example'' ''02/01/2025'', Slept 30]"
  have h1: "(1::int) \<le> 3" by simp
  have h2: "time_sleep ?w 30 = None \<or> (3::int) = 1"
    by (simp add: demo_report_world_def demo_sleep_def)
  have h3: "''02/01/2025'' = strftime ?w 739283 ''%m/%d/%Y''"
    by (simp add: demo_report_world_def demo_strftime_def)
  have r: "replicate (nat (3 - 1)) ?step = [?step, ?step]"
    by (simp add: numeral_2_eq_2)
  have h4: "\<forall>j < nat (3 - 1). failed_attempt
           (requests_post ?w ([] @ concat (replicate j ?step)) ''domino.example'' ''key'' ''02/01/2025'')"
  proof (intro allI impI)
    fix j :: nat assume "j < nat (3 - 1)"
    then have "j = 0 \<or> j = 1" by auto
    then show "failed_attempt
           (requests_post ?w ([] @ concat (replicate j ?step)) ''domino.example'' ''key'' ''02/01/2025'')"
      by (auto simp: demo_report_world_def posts_simps)
  qed
  have h5: "requests_post ?w ([] @ concat (replicate (nat (3 - 1)) ?step))
              ''domino.example'' ''key'' ''02/01/2025'' = PostResponse 200 ''a,b''"
    unfolding r by (simp add: demo_report_world_def posts_simps)
  have h6: "response_ok 200" by (simp add: response_ok_def)
  have h7: "pd_read_csv ?w ''a,b'' = Some [[''a,b'']]" by (simp add: demo_report_world_def)
  have h8: "''usage_report_02-01-2025.xlsx''
             = ''usage_report'' @ ''_'' @ strftime ?w 739283 ''%m-%d-%Y'' @ ''.xlsx''"
    by (simp add: demo_report_world_def demo_strftime_def)
  have w: "df_to_excel ?w ''usage_report_02-01-2025.xlsx'' [[''a,b'']]"
    by (simp add: demo_report_world_def)
  from retries_then_one_export [OF h1 h2 h3 h4 h5 h6 h7 h8] w r
  have "generate_daily_report ?w ''domino.example'' ''key'' 739283 ''usage_report'' 3 30 []
     = (Inr True, [Posted ''domino.example'' ''02/01/2025'', Slept 30,
                   Posted ''domino.example'' ''02/01/2025'', Slept 30,
                   Posted ''domino.example'' ''02/01/2025'',
                   Saved ''usage_report_02-01-2025.xlsx''])"
    by simp
  with h1 h2 h6 h7 show ?thesis by blast
qed

section \<open>C5: all attempts fail\<close>

text \<open>
  C5 says that a date whose attempts all fail is reported as failed and the run goes on to
  the next day. When every attempt ends in a transport error, no response was ever bound:
  line 56 reads \<^verbatim>\<open>response.ok\<close> and raises \<^verbatim>\<open>UnboundLocalError\<close>, which nothing catches.
  With three attempts and an unreachable service, the run over 02/01/2025 to 02/03/2025
  ends with status 1 after the three requests of the first day.
\<close>

theorem unreachable_service_ends_the_whole_run:
  "generate_daily_report (demo_report_world 100 True) ''domino.example'' ''key'' 739283
      ''usage_report'' 3 30 []
     = (Inl UnboundLocalError,
        [Posted ''domino.example'' ''02/01/2025'', Slept 30,
         Posted ''domino.example'' ''02/01/2025'', Slept 30,
         Posted ''domino.example'' ''02/01/2025''])
   \<and> reports_main (demo_report_world 100 True) (demo_report_args ''02/01/2025'' ''02/03/2025'' 3 30)
     = (1, [Posted ''domino.example'' ''02/01/2025'', Slept 30,
            Posted ''domino.example'' ''02/01/2025'', Slept 30,
            Posted ''domino.example'' ''02/01/2025''])"
  by (intro conjI; code_simp)

section \<open>C6: a start date after the end date\<close>

text \<open>
  C6. When both dates parse and the start date is after the end date, \<^verbatim>\<open>main\<close> exits with
  status 1 and an empty log: no request was sent and \<^verbatim>\<open>generate_daily_report\<close> was not
  called.
\<close>

theorem start_after_end_exits_before_any_request:
  assumes "strptime w (arg_start_date a) ''%m/%d/%Y'' = Some start_dt"
    and "strptime w (arg_end_date a) ''%m/%d/%Y'' = Some end_dt"
    and "end_dt < start_dt"
  shows "reports_main w a = (1, [])"
  using assms by (simp add: reports_main_def)

theorem start_after_end_exits_before_any_request_witness:
  "strptime (demo_report_world 0 True)
     (arg_start_date (demo_report_args ''02/03/2025'' ''02/01/2025'' 3 30)) ''%m/%d/%Y'' = Some 739285
   \<and> strptime (demo_report_world 0 True)
     (arg_end_date (demo_report_args ''02/03/2025'' ''02/01/2025'' 3 30)) ''%m/%d/%Y'' = Some 739283
   \<and> (739283::int) < 739285
   \<and> reports_main (demo_report_world 0 True) (demo_report_args ''02/03/2025'' ''02/01/2025'' 3 30)
       = (1, [])"
proof -
  have s: "strptime (demo_report_world 0 True)
     (arg_start_date (demo_report_args ''02/03/2025'' ''02/01/2025'' 3 30)) ''%m/%d/%Y'' = Some 739285"
    by (simp add: demo_report_world_def demo_report_args_def)
  have e: "strptime (demo_report_world 0 True)
     (arg_end_date (demo_report_args ''02/03/2025'' ''02/01/2025'' 3 30)) ''%m/%d/%Y'' = Some 739283"
    by (simp add: demo_report_world_def demo_report_args_def)
  have lt: "(739283::int) < 739285" by simp
  from start_after_end_exits_before_any_request [OF s e lt] s e lt show ?thesis by blast
qed

section \<open>C7: adding twice\<close>

text \<open>
  C7. In an \<^verbatim>\<open>add\<close> run, a username whose user id is already in the organization's member
  set is left out of the apply phase: it is not processed and no PUT is sent for its id.
  So a second \<^verbatim>\<open>add\<close> run over the same file makes no mutating request and returns
  \<^verbatim>\<open>True\<close>, when it comes after a first run that was not a dry run and returned
  \<^verbatim>\<open>True\<close>, and nothing else changed: the file and the answer to the user lookup are the
  same, the organization is still found, and its member set holds the members it had
  before and every user id for which the first run sent a PUT.
\<close>

theorem second_add_run_makes_no_mutating_call:
  assumes "manage_members w1 self Add org_name user_file dry_run1 skip1 [] = (res1, log1)"
    and "fetched w1 self org_name user_file usernames org_info1 org_id1 members1 user_lookup"
  shows "(\<forall>username user_id.
            username \<in> set usernames \<and> user_lookup username = Some user_id
            \<and> py_in user_id members1 = Inr True
            \<longrightarrow> Processing username \<notin> set log1
              \<and> (\<forall>org_id role. PutMember org_id user_id role \<notin> set (mutations log1)))
       \<and> (res1 \<and> \<not> dry_run1
           \<and> file_system w2 user_file = file_system w1 user_file
           \<and> server w2 [Request (GetOrgs org_name)] (GetUsers (user_limit self))
               = server w1 [Request (GetOrgs org_name)] (GetUsers (user_limit self))
           \<and> get_organization_info w2 [] org_name = (Inr (Some org_info2), log_org2)
           \<and> current_members_of org_info2 = Inr members2
           \<and> (\<forall>uid. py_in uid members1 = Inr True \<longrightarrow> py_in uid members2 = Inr True)
           \<and> (\<forall>org_id uid role. PutMember org_id uid role \<in> set (mutations log1)
                  \<longrightarrow> py_in uid members2 = Inr True)
          \<longrightarrow> fst (manage_members w2 self Add org_name user_file dry_run2 skip2 [])
            \<and> mutations (snd (manage_members w2 self Add org_name user_file dry_run2 skip2 [])) = [])"
  using manage_members_shape [OF assms(1)]
proof (elim disjE exE conjE)
  fix l
  assume "\<not> (\<exists>usernames org_info org_id cm user_lookup.
                 fetched w1 self org_name user_file usernames org_info org_id cm user_lookup)"
  with assms(2) show ?thesis by blast
next
  fix l e
  assume "\<not> (\<exists>usernames org_info org_id cm user_lookup.
                 fetched w1 self org_name user_file usernames org_info org_id cm user_lookup)"
  with assms(2) show ?thesis by blast
next
  fix usernames' org_info' org_id' cm' user_lookup' ids missing
  assume f': "fetched w1 self org_name user_file usernames' org_info' org_id' cm' user_lookup'"
    and sep': "separate_users user_lookup' usernames' = (ids, missing)"
    and rc': "reconciled w1 Add org_id' cm' dry_run1 skip1 ids missing
              ([Request (GetOrgs org_name), Request (GetUsers (user_limit self))]
                 @ map UserNotFound missing
                 @ (if missing \<noteq> [] then [UsersNotFound missing] else [])) res1 log1"
  from fetched_unique [OF f' assms(2)] have eqs:
    "usernames' = usernames" "org_info' = org_info1" "org_id' = org_id1" "cm' = members1"
    "user_lookup' = user_lookup" by simp_all
  from sep' rc' eqs have sep: "separate_users user_lookup usernames = (ids, missing)"
    and rc: "reconciled w1 Add org_id1 members1 dry_run1 skip1 ids missing
              ([Request (GetOrgs org_name), Request (GetUsers (user_limit self))]
                 @ map UserNotFound missing
                 @ (if missing \<noteq> [] then [UsersNotFound missing] else [])) res1 log1"
    by simp_all
  note facts = reconciled_facts [OF rc refl]
  have part1: "\<forall>username user_id.
            username \<in> set usernames \<and> user_lookup username = Some user_id
            \<and> py_in user_id members1 = Inr True
            \<longrightarrow> Processing username \<notin> set log1
              \<and> (\<forall>org_id role. PutMember org_id user_id role \<notin> set (mutations log1))"
  proof (intro allI impI, elim conjE)
    fix username user_id
    assume un: "username \<in> set usernames" "user_lookup username = Some user_id"
      and mem: "py_in user_id members1 = Inr True"
    have a: "Processing username \<notin> set log1"
    proof
      assume "Processing username \<in> set log1"
      with facts(3) obtain uid where u: "(username, uid) \<in> set ids"
        "py_in uid members1 = Inr (Add = Remove)" by blast
      from u(1) separate_users_ids [OF sep, of username uid] un(2) have "uid = user_id" by simp
      with u(2) mem show False by simp
    qed
    have b: "\<forall>org_id role. PutMember org_id user_id role \<notin> set (mutations log1)"
    proof (intro allI notI)
      fix org_id role
      assume "PutMember org_id user_id role \<in> set (mutations log1)"
      with facts(1) obtain un' uid' where u: "(un', uid') \<in> set ids"
        "py_in uid' members1 = Inr (Add = Remove)"
        "PutMember org_id user_id role = mutation_for Add org_id1 uid'" by blast
      from u(3) have "uid' = user_id" by (simp add: mutation_for_def)
      with u(2) mem show False by simp
    qed
    from a b show "Processing username \<notin> set log1
              \<and> (\<forall>org_id role. PutMember org_id user_id role \<notin> set (mutations log1))" ..
  qed
  have part2: "res1 \<and> \<not> dry_run1
           \<and> file_system w2 user_file = file_system w1 user_file
           \<and> server w2 [Request (GetOrgs org_name)] (GetUsers (user_limit self))
               = server w1 [Request (GetOrgs org_name)] (GetUsers (user_limit self))
           \<and> get_organization_info w2 [] org_name = (Inr (Some org_info2), log_org2)
           \<and> current_members_of org_info2 = Inr members2
           \<and> (\<forall>uid. py_in uid members1 = Inr True \<longrightarrow> py_in uid members2 = Inr True)
           \<and> (\<forall>org_id uid role. PutMember org_id uid role \<in> set (mutations log1)
                  \<longrightarrow> py_in uid members2 = Inr True)
          \<longrightarrow> fst (manage_members w2 self Add org_name user_file dry_run2 skip2 [])
            \<and> mutations (snd (manage_members w2 self Add org_name user_file dry_run2 skip2 [])) = []"
  proof (intro impI, elim conjE)
    assume res1: res1 and nd: "\<not> dry_run1"
      and same_file: "file_system w2 user_file = file_system w1 user_file"
      and same_users: "server w2 [Request (GetOrgs org_name)] (GetUsers (user_limit self))
               = server w1 [Request (GetOrgs org_name)] (GetUsers (user_limit self))"
      and org2: "get_organization_info w2 [] org_name = (Inr (Some org_info2), log_org2)"
      and cm2: "current_members_of org_info2 = Inr members2"
      and kept: "\<forall>uid. py_in uid members1 = Inr True \<longrightarrow> py_in uid members2 = Inr True"
      and added: "\<forall>org_id uid role. PutMember org_id uid role \<in> set (mutations log1)
                  \<longrightarrow> py_in uid members2 = Inr True"
    from rc res1 nd have rc1: "reconciled w1 Add org_id1 members1 False skip1 ids missing
              ([Request (GetOrgs org_name), Request (GetUsers (user_limit self))]
                 @ map UserNotFound missing
                 @ (if missing \<noteq> [] then [UsersNotFound missing] else [])) True log1"
      by simp
    from successful_add_run [OF rc1 refl] have ne: "ids \<noteq> []"
      and each: "\<forall>un uid. (un, uid) \<in> set ids \<longrightarrow>
           py_in uid members1 = Inr True \<or> PutMember org_id1 uid ''Member'' \<in> set (mutations log1)"
      by blast+
    have all: "\<forall>p \<in> set ids. py_in (snd p) members2 = Inr True"
    proof
      fix p assume "p \<in> set ids"
      then have "(fst p, snd p) \<in> set ids" by simp
      with each have "py_in (snd p) members1 = Inr True
          \<or> PutMember org_id1 (snd p) ''Member'' \<in> set (mutations log1)" by blast
      with kept added show "py_in (snd p) members2 = Inr True" by blast
    qed
    from get_organization_info_log [OF org2] have l2: "log_org2 = [Request (GetOrgs org_name)]"
      by simp
    from get_organization_info_Some [OF org2] obtain kvs where "org_info2 = JObj kvs" by blast
    then obtain org_id2 where id2: "py_get org_info2 ''id'' JNull = Inr org_id2" by simp
    have f2: "fetched w2 self org_name user_file usernames org_info2 org_id2 members2 user_lookup"
      using assms(2) read_usernames_same_file [OF same_file] get_users_batch_same_reply [OF same_users]
        org2 l2 id2 cm2
      by (simp add: fetched_def)
    from second_run_nothing_to_do [OF f2 sep ne all]
    show "fst (manage_members w2 self Add org_name user_file dry_run2 skip2 [])
            \<and> mutations (snd (manage_members w2 self Add org_name user_file dry_run2 skip2 [])) = []" .
  qed
  from part1 part2 show ?thesis by (rule conjI)
qed

theorem second_add_run_makes_no_mutating_call_witness:
  "manage_members (demo_world demo_file u1_member ''yes'') \<lparr>user_limit = 10000\<rparr> Add ''team''
      ''users.txt'' False True []
     = (True, [Request (GetOrgs ''team''), Request (GetUsers 10000), UserNotFound ''carol'',
               UsersNotFound [''carol''], Skipping [''alice''], Processing ''bob'',
               Request (PutMember (JStr ''o1'') (JStr ''u2'') ''Member''), Succeeded ''bob'',
               Summary 1 1 0 (Some 1)])
   \<and> get_organization_info (demo_world demo_file u1_u2_members ''yes'') [] ''team''
     = (Inr (Some (JObj [(''name'', JStr ''team''), (''id'', JStr ''o1''),
                         (''members'', JArr u1_u2_members)])), [Request (GetOrgs ''team'')])
   \<and> current_members_of (JObj [(''name'', JStr ''team''), (''id'', JStr ''o1''),
                                (''members'', JArr u1_u2_members)])
     = Inr [JStr ''u1'', JStr ''u2'']
   \<and> fst (manage_members (demo_world demo_file u1_u2_members ''yes'') \<lparr>user_limit = 10000\<rparr> Add
            ''team'' ''users.txt'' False True [])
   \<and> mutations (snd (manage_members (demo_world demo_file u1_u2_members ''yes'')
                        \<lparr>user_limit = 10000\<rparr> Add ''team'' ''users.txt'' False True [])) = []"
proof -
  let ?w1 = "demo_world demo_file u1_member ''yes''"
  let ?w2 = "demo_world demo_file u1_u2_members ''yes''"
  let ?self = "\<lparr>user_limit = 10000\<rparr>"
  let ?log1 = "[Request (GetOrgs ''team''), Request (GetUsers 10000), UserNotFound ''carol'',
               UsersNotFound [''carol''], Skipping [''alice''], Processing ''bob'',
               Request (PutMember (JStr ''o1'') (JStr ''u2'') ''Member''), Succeeded ''bob'',
               Summary 1 1 0 (Some 1)]"
  let ?lk = "filter_requested [''alice'' \<mapsto> JStr ''u1'', ''bob'' \<mapsto> JStr ''u2'']
           [''alice'', ''bob'', ''carol''] Map.empty"
  let ?org1 = "JObj [(''name'', JStr ''team''), (''id'', JStr ''o1''), (''members'', JArr u1_member)]"
  let ?org2 = "JObj [(''name'', JStr ''team''), (''id'', JStr ''o1''), (''members'', JArr u1_u2_members)]"
  have run1: "manage_members ?w1 ?self Add ''team'' ''users.txt'' False True [] = (True, ?log1)"
    by code_simp
  have f1: "fetched ?w1 ?self ''team'' ''users.txt'' [''alice'', ''bob'', ''carol''] ?org1
              (JStr ''o1'') [JStr ''u1''] ?lk"
    unfolding fetched_def
    apply (intro conjI)
        apply code_simp
       apply code_simp
      apply code_simp
     apply code_simp
    apply (simp add: get_users_batch_def demo_world_def demo_users_def http_error_def)
    done
  have same_file: "file_system ?w2 ''users.txt'' = file_system ?w1 ''users.txt''"
    by (simp add: demo_world_def)
  have same_users: "server ?w2 [Request (GetOrgs ''team'')] (GetUsers (user_limit ?self))
                  = server ?w1 [Request (GetOrgs ''team'')] (GetUsers (user_limit ?self))"
    by (simp add: demo_world_def)
  have org2: "get_organization_info ?w2 [] ''team'' = (Inr (Some ?org2), [Request (GetOrgs ''team'')])"
    by code_simp
  have cm2: "current_members_of ?org2 = Inr [JStr ''u1'', JStr ''u2'']"
    by code_simp
  have kept: "\<forall>uid. py_in uid [JStr ''u1''] = Inr True
                \<longrightarrow> py_in uid [JStr ''u1'', JStr ''u2''] = Inr True"
    by (simp add: py_in_def)
  have muts: "mutations ?log1 = [PutMember (JStr ''o1'') (JStr ''u2'') ''Member'']"
    by (simp add: mutations_simps)
  have added: "\<forall>org_id uid role. PutMember org_id uid role \<in> set (mutations ?log1)
                 \<longrightarrow> py_in uid [JStr ''u1'', JStr ''u2''] = Inr True"
    unfolding muts by (simp add: py_in_def py_eq_def)
  from second_add_run_makes_no_mutating_call [OF run1 f1, of ?w2 ?org2 "[Request (GetOrgs ''team'')]"
      "[JStr ''u1'', JStr ''u2'']" False True]
    same_file same_users org2 cm2 kept added
  have "fst (manage_members ?w2 ?self Add ''team'' ''users.txt'' False True [])
      \<and> mutations (snd (manage_members ?w2 ?self Add ''team'' ''users.txt'' False True [])) = []"
    by blast
  with run1 org2 cm2 show ?thesis by blast
qed

section \<open>C8: the counts of the summary\<close>

text \<open>
  C8. Whenever a run logs its summary, the number of resolved usernames is the number of users
  processed plus the number already in the wanted state (members when adding, non-members
  when removing), and the number processed is the number of successes plus the number of
  failures, which is the number of \<^verbatim>\<open>Failed to ...\<close> lines. Every run that enters the loop
  over the users to process logs a summary.
\<close>

theorem summary_counts_add_up:
  assumes "manage_members w self act org_name user_file dry_run skip_confirmation [] = (res, log)"
  shows "(\<forall>total succeeded failed not_found. Summary total succeeded failed not_found \<in> set log \<longrightarrow>
           (\<exists>usernames org_info org_id current_members user_lookup user_ids_to_process missing_users.
               fetched w self org_name user_file usernames org_info org_id current_members user_lookup
             \<and> separate_users user_lookup usernames = (user_ids_to_process, missing_users)
             \<and> total = length (filter (\<lambda>p. py_in (snd p) current_members = Inr (act = Remove))
                                 user_ids_to_process)
             \<and> length user_ids_to_process
                 = total + length (filter (\<lambda>p. py_in (snd p) current_members = Inr (act = Add))
                                     user_ids_to_process)
             \<and> total = succeeded + failed
             \<and> failed = failures log))
       \<and> ((\<exists>username. Processing username \<in> set log)
            \<longrightarrow> (\<exists>total succeeded failed not_found. Summary total succeeded failed not_found \<in> set log))"
  using manage_members_shape [OF assms]
proof (elim disjE exE conjE)
  fix l
  assume "set l \<subseteq> {Request (GetOrgs org_name), Request (GetUsers (user_limit self))}" "log = l"
  then have e: "set l \<subseteq> {Request (GetOrgs org_name), Request (GetUsers (user_limit self))}"
    "log = l \<or> (\<exists>e. log = l @ [Unexpected e])" by auto
  from early_events(3,4) [OF e] show ?thesis by blast
next
  fix l e
  assume "set l \<subseteq> {Request (GetOrgs org_name), Request (GetUsers (user_limit self))}"
    "log = l @ [Unexpected e]"
  then have e: "set l \<subseteq> {Request (GetOrgs org_name), Request (GetUsers (user_limit self))}"
    "log = l \<or> (\<exists>e. log = l @ [Unexpected e])" by auto
  from early_events(3,4) [OF e] show ?thesis by blast
next
  fix usernames org_info org_id cm user_lookup ids missing
  assume f: "fetched w self org_name user_file usernames org_info org_id cm user_lookup"
    and sep: "separate_users user_lookup usernames = (ids, missing)"
    and rc: "reconciled w act org_id cm dry_run skip_confirmation ids missing
              ([Request (GetOrgs org_name), Request (GetUsers (user_limit self))]
                 @ map UserNotFound missing
                 @ (if missing \<noteq> [] then [UsersNotFound missing] else [])) res log"
  note rr = reconciled_result [OF rc refl]
  have part1: "\<forall>total succeeded failed not_found. Summary total succeeded failed not_found \<in> set log \<longrightarrow>
           (\<exists>usernames org_info org_id current_members user_lookup user_ids_to_process missing_users.
               fetched w self org_name user_file usernames org_info org_id current_members user_lookup
             \<and> separate_users user_lookup usernames = (user_ids_to_process, missing_users)
             \<and> total = length (filter (\<lambda>p. py_in (snd p) current_members = Inr (act = Remove))
                                 user_ids_to_process)
             \<and> length user_ids_to_process
                 = total + length (filter (\<lambda>p. py_in (snd p) current_members = Inr (act = Add))
                                     user_ids_to_process)
             \<and> total = succeeded + failed
             \<and> failed = failures log)"
  proof (intro allI impI)
    fix total succeeded failed not_found
    assume "Summary total succeeded failed not_found \<in> set log"
    with rr(3) obtain utp skipped where s:
      "failed = failures log" "total = succeeded + failed"
      "filter_for_action act ids cm = Inr (utp, skipped)" "total = length utp"
      by blast
    from filter_for_action_filter [OF s(3)] filter_for_action_sound [OF s(3)] s(4) have
      "total = length (filter (\<lambda>p. py_in (snd p) cm = Inr (act = Remove)) ids)"
      "length ids = total + length (filter (\<lambda>p. py_in (snd p) cm = Inr (act = Add)) ids)"
      by simp_all
    with f sep s(1,2)
    show "\<exists>usernames org_info org_id current_members user_lookup user_ids_to_process missing_users.
               fetched w self org_name user_file usernames org_info org_id current_members user_lookup
             \<and> separate_users user_lookup usernames = (user_ids_to_process, missing_users)
             \<and> total = length (filter (\<lambda>p. py_in (snd p) current_members = Inr (act = Remove))
                                 user_ids_to_process)
             \<and> length user_ids_to_process
                 = total + length (filter (\<lambda>p. py_in (snd p) current_members = Inr (act = Add))
                                     user_ids_to_process)
             \<and> total = succeeded + failed
             \<and> failed = failures log" by blast
  qed
  from part1 rr(4) show ?thesis by (rule conjI)
qed

theorem summary_counts_add_up_witness:
  "manage_members (demo_world demo_file u1_member '' YES '') \<lparr>user_limit = 10000\<rparr> Remove ''team''
      ''users.txt'' False True []
     = (False, [Request (GetOrgs ''team''), Request (GetUsers 10000), UserNotFound ''carol'',
                UsersNotFound [''carol''], Skipping [''bob''], Processing ''alice'',
                Request (DeleteMember (JStr ''o1'') (JStr ''u1'')), Failed ''alice'',
                Summary 1 0 1 (Some 1)])
   \<and> (\<exists>usernames org_info org_id current_members user_lookup user_ids_to_process missing_users.
         fetched (demo_world demo_file u1_member '' YES '') \<lparr>user_limit = 10000\<rparr> ''team''
           ''users.txt'' usernames org_info org_id current_members user_lookup
       \<and> separate_users user_lookup usernames = (user_ids_to_process, missing_users)
       \<and> (1::nat) = length (filter (\<lambda>p. py_in (snd p) current_members = Inr (Remove = Remove))
                               user_ids_to_process)
       \<and> length user_ids_to_process
           = 1 + length (filter (\<lambda>p. py_in (snd p) current_members = Inr (Remove = Add))
                           user_ids_to_process)
       \<and> (1::nat) = 0 + 1)"
proof -
  let ?w = "demo_world demo_file u1_member '' YES ''"
  let ?log = "[Request (GetOrgs ''team''), Request (GetUsers 10000), UserNotFound ''carol'',
                UsersNotFound [''carol''], Skipping [''bob''], Processing ''alice'',
                Request (DeleteMember (JStr ''o1'') (JStr ''u1'')), Failed ''alice'',
                Summary 1 0 1 (Some 1)]"
  have run: "manage_members ?w \<lparr>user_limit = 10000\<rparr> Remove ''team'' ''users.txt'' False True []
               = (False, ?log)"
    by code_simp
  have s: "Summary 1 0 1 (Some 1) \<in> set ?log" by simp
  from summary_counts_add_up [OF run] s
  have "\<exists>usernames org_info org_id current_members user_lookup user_ids_to_process missing_users.
         fetched ?w \<lparr>user_limit = 10000\<rparr> ''team''
           ''users.txt'' usernames org_info org_id current_members user_lookup
       \<and> separate_users user_lookup usernames = (user_ids_to_process, missing_users)
       \<and> (1::nat) = length (filter (\<lambda>p. py_in (snd p) current_members = Inr (Remove = Remove))
                               user_ids_to_process)
       \<and> length user_ids_to_process
           = 1 + length (filter (\<lambda>p. py_in (snd p) current_members = Inr (Remove = Add))
                           user_ids_to_process)
       \<and> (1::nat) = 0 + 1
       \<and> (1::nat) = failures ?log"
    by blast
  then have "\<exists>usernames org_info org_id current_members user_lookup user_ids_to_process missing_users.
         fetched ?w \<lparr>user_limit = 10000\<rparr> ''team''
           ''users.txt'' usernames org_info org_id current_members user_lookup
       \<and> separate_users user_lookup usernames = (user_ids_to_process, missing_users)
       \<and> (1::nat) = length (filter (\<lambda>p. py_in (snd p) current_members = Inr (Remove = Remove))
                               user_ids_to_process)
       \<and> length user_ids_to_process
           = 1 + length (filter (\<lambda>p. py_in (snd p) current_members = Inr (Remove = Add))
                           user_ids_to_process)
       \<and> (1::nat) = 0 + 1"
    by blast
  with run show ?thesis by (rule conjI)
qed

section \<open>C9: the organization is found by its exact name\<close>

text \<open>
  C9. \<^verbatim>\<open>get_organization_info\<close> returns an organization only if it is one of the
  organizations of the response and its \<^verbatim>\<open>name\<close> is the requested name, character for
  character. When the response lists only organizations with another name (one that contains
  the requested name, say), the result is \<^verbatim>\<open>None\<close>; then \<^verbatim>\<open>manage_members\<close> returns
  \<^verbatim>\<open>False\<close> without a mutating request and \<^verbatim>\<open>main\<close> exits with status 1, as for an
  organization that does not exist.
\<close>

theorem organization_lookup_needs_exact_name:
  "(get_organization_info w log org_name = (Inr (Some org), log')
      \<longrightarrow> py_get org ''name'' JNull = Inr (JStr org_name)
        \<and> (\<exists>status data orgs items. server w log (GetOrgs org_name) = Reply status (Some data)
              \<and> \<not> http_error status
              \<and> py_get data ''orgs'' (JArr []) = Inr orgs \<and> py_iter orgs = Inr items
              \<and> org \<in> set items))
   \<and> (server w log (GetOrgs org_name) = Reply status (Some data) \<and> \<not> http_error status
        \<and> py_get data ''orgs'' (JArr []) = Inr (JArr orgs)
        \<and> (\<forall>org \<in> set orgs. \<exists>name. py_get org ''name'' JNull = Inr name \<and> name \<noteq> JStr org_name)
      \<longrightarrow> get_organization_info w log org_name = (Inr None, log @ [Request (GetOrgs org_name)]))
   \<and> (fst (get_organization_info w [] org_name) = Inr None
      \<longrightarrow> \<not> fst (manage_members w self act org_name user_file dry_run skip_confirmation [])
        \<and> mutations (snd (manage_members w self act org_name user_file dry_run skip_confirmation [])) = [])
   \<and> (fst (get_organization_info w [] (arg_org a)) = Inr None
      \<longrightarrow> fst (org_members_main w a) = 1 \<and> mutations (snd (org_members_main w a)) = [])"
proof (intro conjI impI)
  assume "get_organization_info w log org_name = (Inr (Some org), log')"
  from get_organization_info_found [OF this]
  show "py_get org ''name'' JNull = Inr (JStr org_name)"
    and "\<exists>status data orgs items. server w log (GetOrgs org_name) = Reply status (Some data)
              \<and> \<not> http_error status
              \<and> py_get data ''orgs'' (JArr []) = Inr orgs \<and> py_iter orgs = Inr items
              \<and> org \<in> set items"
    by blast+
next
  assume "server w log (GetOrgs org_name) = Reply status (Some data) \<and> \<not> http_error status
        \<and> py_get data ''orgs'' (JArr []) = Inr (JArr orgs)
        \<and> (\<forall>org \<in> set orgs. \<exists>name. py_get org ''name'' JNull = Inr name \<and> name \<noteq> JStr org_name)"
  then show "get_organization_info w log org_name = (Inr None, log @ [Request (GetOrgs org_name)])"
    using get_organization_info_no_match [of w log org_name status data orgs] by blast
next
  assume none: "fst (get_organization_info w [] org_name) = Inr None"
  obtain res l where run:
    "manage_members w self act org_name user_file dry_run skip_confirmation [] = (res, l)"
    by (metis surj_pair)
  from manage_members_org_missing [OF run none] run
  show "\<not> fst (manage_members w self act org_name user_file dry_run skip_confirmation [])"
    and "mutations (snd (manage_members w self act org_name user_file dry_run skip_confirmation [])) = []"
    by simp_all
next
  assume none: "fst (get_organization_info w [] (arg_org a)) = Inr None"
  obtain code l where m: "org_members_main w a = (code, l)" by (metis surj_pair)
  from org_members_main_cases [OF m] have "code = 1 \<and> mutations l = []"
  proof (elim disjE exE conjE)
    assume "code = 1" "l = []"
    then show ?thesis by (simp add: mutations_simps)
  next
    fix res
    assume run: "manage_members w \<lparr>user_limit = arg_user_limit a\<rparr> (arg_action a) (arg_org a)
                   (arg_user_file a) (arg_dry_run a) (arg_yes a) [] = (res, l)"
      and code: "code = (if res then 0 else 1)"
    from manage_members_org_missing [OF run none] code show ?thesis by simp
  qed
  with m show "fst (org_members_main w a) = 1" and "mutations (snd (org_members_main w a)) = []"
    by simp_all
qed

theorem organization_lookup_needs_exact_name_witness:
  "get_organization_info (demo_world demo_file u1_member ''yes'') [] ''team''
     = (Inr (Some (JObj [(''name'', JStr ''team''), (''id'', JStr ''o1''),
                         (''members'', JArr u1_member)])), [Request (GetOrgs ''team'')])
   \<and> py_get (JObj [(''name'', JStr ''team''), (''id'', JStr ''o1''), (''members'', JArr u1_member)])
        ''name'' JNull = Inr (JStr ''team'')
   \<and> get_organization_info (demo_world demo_file u1_member ''yes'') [] ''tea''
     = (Inr None, [Request (GetOrgs ''tea'')])
   \<and> fst (org_members_main (demo_world demo_file u1_member ''yes'') (demo_args Add ''tea'' False True)) = 1
   \<and> mutations (snd (org_members_main (demo_world demo_file u1_member ''yes'')
                        (demo_args Add ''tea'' False True))) = []"
proof -
  let ?w = "demo_world demo_file u1_member ''yes''"
  let ?org = "JObj [(''name'', JStr ''team''), (''id'', JStr ''o1''), (''members'', JArr u1_member)]"
  have found: "get_organization_info ?w [] ''team'' = (Inr (Some ?org), [Request (GetOrgs ''team'')])"
    by code_simp
  have srv: "server ?w [] (GetOrgs ''tea'') = Reply 200 (Some (demo_orgs u1_member))"
    by (simp add: demo_world_def)
  have ok: "\<not> http_error 200" by (simp add: http_error_def)
  have orgs: "py_get (demo_orgs u1_member) ''orgs'' (JArr [])
     = Inr (JArr [JObj [(''name'', JStr ''team-old''), (''id'', JStr ''o0''), (''members'', JArr [])],
                  ?org])"
    by (simp add: demo_orgs_def)
  have names: "\<forall>org \<in> set [JObj [(''name'', JStr ''team-old''), (''id'', JStr ''o0''),
                                   (''members'', JArr [])], ?org].
                  \<exists>name. py_get org ''name'' JNull = Inr name \<and> name \<noteq> JStr ''tea''"
    by simp
  have arg: "arg_org (demo_args Add ''tea'' False True) = ''tea''" by (simp add: demo_args_def)
  note c9 = organization_lookup_needs_exact_name
    [of ?w "[]" "''team''" ?org "[Request (GetOrgs ''team'')]" _ _ _ _ _ _ _ _ "demo_args Add ''team'' False True"]
  note c9' = organization_lookup_needs_exact_name
    [of ?w "[]" "''tea''" _ _ 200 "demo_orgs u1_member"
        "[JObj [(''name'', JStr ''team-old''), (''id'', JStr ''o0''), (''members'', JArr [])], ?org]"
        _ _ _ _ _ "demo_args Add ''tea'' False True"]
  from c9 found have n: "py_get ?org ''name'' JNull = Inr (JStr ''team'')" by blast
  from c9' srv ok orgs names have none: "get_organization_info ?w [] ''tea''
     = (Inr None, [] @ [Request (GetOrgs ''tea'')])" by blast
  then have none': "fst (get_organization_info ?w [] (arg_org (demo_args Add ''tea'' False True))) = Inr None"
    by (simp add: arg)
  from c9' none' have "fst (org_members_main ?w (demo_args Add ''tea'' False True)) = 1
     \<and> mutations (snd (org_members_main ?w (demo_args Add ''tea'' False True))) = []" by blast
  with found n none show ?thesis by simp
qed

section \<open>C10: a declined confirmation changes nothing\<close>

text \<open>
  C10. When the confirmation prompt is shown and the answer, stripped of surrounding
  whitespace and lower-cased, is neither \<^verbatim>\<open>yes\<close> nor \<^verbatim>\<open>y\<close>, \<^verbatim>\<open>manage_members\<close> returns
  \<^verbatim>\<open>False\<close> and has sent no mutating request (the prompt is shown only when the run is
  neither a dry run nor one with the confirmation skipped), and \<^verbatim>\<open>main\<close> exits with
  status 1.
\<close>

theorem declined_confirmation_changes_nothing:
  assumes "console w = Some answer"
    and "py_lower (py_strip answer) \<notin> {''yes'', ''y''}"
  shows "(Prompt \<in> set (snd (manage_members w self act org_name user_file dry_run skip_confirmation []))
            \<longrightarrow> \<not> fst (manage_members w self act org_name user_file dry_run skip_confirmation [])
              \<and> mutations (snd (manage_members w self act org_name user_file dry_run
                                   skip_confirmation [])) = []
              \<and> \<not> dry_run \<and> \<not> skip_confirmation)
       \<and> (Prompt \<in> set (snd (org_members_main w a))
            \<longrightarrow> fst (org_members_main w a) = 1 \<and> mutations (snd (org_members_main w a)) = [])"
proof -
  have no: "\<not> confirms answer" using assms(2) by (simp add: confirms_def)
  have first: "Prompt \<in> set (snd (manage_members w self act org_name user_file dry_run skip_confirmation []))
            \<longrightarrow> \<not> fst (manage_members w self act org_name user_file dry_run skip_confirmation [])
              \<and> mutations (snd (manage_members w self act org_name user_file dry_run
                                   skip_confirmation [])) = []
              \<and> \<not> dry_run \<and> \<not> skip_confirmation"
  proof
    assume p: "Prompt \<in> set (snd (manage_members w self act org_name user_file dry_run skip_confirmation []))"
    obtain res log where run:
      "manage_members w self act org_name user_file dry_run skip_confirmation [] = (res, log)"
      by (metis surj_pair)
    with p have "Prompt \<in> set log" by simp
    from declined_run [OF run this assms(1) no] run
    show "\<not> fst (manage_members w self act org_name user_file dry_run skip_confirmation [])
              \<and> mutations (snd (manage_members w self act org_name user_file dry_run
                                   skip_confirmation [])) = []
              \<and> \<not> dry_run \<and> \<not> skip_confirmation" by simp
  qed
  have second: "Prompt \<in> set (snd (org_members_main w a))
            \<longrightarrow> fst (org_members_main w a) = 1 \<and> mutations (snd (org_members_main w a)) = []"
  proof
    assume p: "Prompt \<in> set (snd (org_members_main w a))"
    obtain code log where m: "org_members_main w a = (code, log)" by (metis surj_pair)
    with p have pl: "Prompt \<in> set log" by simp
    from org_members_main_cases [OF m] pl obtain res where
      run: "manage_members w \<lparr>user_limit = arg_user_limit a\<rparr> (arg_action a) (arg_org a)
                   (arg_user_file a) (arg_dry_run a) (arg_yes a) [] = (res, log)"
      and code: "code = (if res then 0 else 1)"
      by auto
    from declined_run [OF run pl assms(1) no] code m
    show "fst (org_members_main w a) = 1 \<and> mutations (snd (org_members_main w a)) = []" by simp
  qed
  from first second show ?thesis by (rule conjI)
qed

theorem declined_confirmation_changes_nothing_witness:
  "console (demo_world demo_file u1_member '' No '') = Some '' No ''
   \<and> py_lower (py_strip '' No '') \<notin> {''yes'', ''y''}
   \<and> org_members_main (demo_world demo_file u1_member '' No '') (demo_args Add ''team'' False False)
       = (1, [Request (GetOrgs ''team''), Request (GetUsers 10000), UserNotFound ''carol'',
              UsersNotFound [''carol''], Skipping [''alice''], Prompt, Cancelled])
   \<and> Prompt \<in> set (snd (org_members_main (demo_world demo_file u1_member '' No '')
                           (demo_args Add ''team'' False False)))
   \<and> fst (org_members_main (demo_world demo_file u1_member '' No '')
            (demo_args Add ''team'' False False)) = 1
   \<and> mutations (snd (org_members_main (demo_world demo_file u1_member '' No '')
                        (demo_args Add ''team'' False False))) = []"
proof -
  have c: "console (demo_world demo_file u1_member '' No '') = Some '' No ''"
    by (simp add: demo_world_def)
  have n: "py_lower (py_strip '' No '') \<notin> {''yes'', ''y''}"
    by code_simp
  have e: "org_members_main (demo_world demo_file u1_member '' No '') (demo_args Add ''team'' False False)
       = (1, [Request (GetOrgs ''team''), Request (GetUsers 10000), UserNotFound ''carol'',
              UsersNotFound [''carol''], Skipping [''alice''], Prompt, Cancelled])"
    by code_simp
  have p: "Prompt \<in> set (snd (org_members_main (demo_world demo_file u1_member '' No '')
                           (demo_args Add ''team'' False False)))"
    by (simp add: e)
  from declined_confirmation_changes_nothing [OF c n, of "\<lparr>user_limit = 10000\<rparr>" Add "''team''"
      "''users.txt''" False False "demo_args Add ''team'' False False"] p c n e
  show ?thesis by simp
qed

end
